theory Spec2Isabelle
  imports Main "HOL-Library.Multiset" "HOL-Library.Sublist"
begin


section \<open>JavaScript values read by the aggregation code\<close>

text \<open>
  An identity (\<open>rating_key\<close>, \<open>seriesId\<close>, ...) arrives from JSON as a number, a string, or
  is missing. Strict equality (\<open>===\<close>, \<open>!==\<close>) and the key comparison of \<open>Map\<close>
  and \<open>Set\<close> coincide with equality of this datatype (no key is \<open>NaN\<close>).
\<close>

datatype jskey = KUndefined | KNum int | KStr string

text \<open>Truthiness, as \<open>if (movie.rating_key)\<close> and \<open>a || b\<close> test it.\<close>

fun truthy :: "jskey \<Rightarrow> bool" where
  "truthy KUndefined = False"
| "truthy (KNum n) = (n \<noteq> 0)"
| "truthy (KStr s) = (s \<noteq> [])"

text \<open>\<open>a || b\<close> on identities.\<close>

definition orElse :: "jskey \<Rightarrow> jskey \<Rightarrow> jskey" where
  "orElse a b = (if truthy a then a else b)"

text \<open>
  The \<open>date\<close> field of a history record: a Unix timestamp in seconds, a string, or
  anything else JSON can hold (arrays are left out).
\<close>

datatype jsdate = DNum int | DStr string | DNull | DUndefined | DBool bool | DObject

text \<open>
  The environment of one run: the wall clock (\<open>new Date()\<close>, in milliseconds, taken as
  constant during one synchronous pass over the data), the time zone's
  \<open>getFullYear\<close> on a valid instant, \<open>Date\<close>'s string parser and the numeric value
  of a string (\<open>None\<close> is \<open>NaN\<close>). A \<open>Date\<close> object is \<open>int option\<close>: its
  time value in milliseconds, \<open>None\<close> for an Invalid Date; a year is \<open>int option\<close>
  with \<open>None\<close> for \<open>NaN\<close>.
\<close>

record env =
  now :: int
  fullYear :: "int \<Rightarrow> int"
  parseDate :: "string \<Rightarrow> int option"
  stringToNumber :: "string \<Rightarrow> int option"

text \<open>\<open>new Date(ms)\<close>: a time value beyond 8.64e15 ms gives an Invalid Date.\<close>

definition newDate :: "int \<Rightarrow> int option" where
  "newDate ms = (if \<bar>ms\<bar> \<le> 8640000000000000 then Some ms else None)"

text \<open>
  The three-way branch on \<open>typeof x.date\<close> shared by the movie and the TV code:
  \<open>new Date(date * 1000)\<close>, \<open>new Date(date)\<close>, or \<open>new Date()\<close>.
\<close>

fun toWatchDate :: "env \<Rightarrow> jsdate \<Rightarrow> int option" where
  "toWatchDate e (DNum n) = newDate (n * 1000)"
| "toWatchDate e (DStr s) = parseDate e s"
| "toWatchDate e d = Some (now e)"

definition getFullYear :: "env \<Rightarrow> int option \<Rightarrow> int option" where
  "getFullYear e d = map_option (fullYear e) d"

text \<open>\<open>Number(x.date)\<close>, as the subtraction in the sort comparator coerces it.\<close>

fun toNumber :: "env \<Rightarrow> jsdate \<Rightarrow> int option" where
  "toNumber e (DNum n) = Some n"
| "toNumber e (DStr s) = stringToNumber e s"
| "toNumber e DNull = Some 0"
| "toNumber e DUndefined = None"
| "toNumber e (DBool b) = Some (if b then 1 else 0)"
| "toNumber e DObject = None"

text \<open>\<open>b - a\<close> as a comparator result; the sort reads \<open>NaN\<close> as \<open>+0\<close>.\<close>

definition minusOrZero :: "int option \<Rightarrow> int option \<Rightarrow> int" where
  "minusOrZero b a = (case (b, a) of (Some y, Some x) \<Rightarrow> y - x | _ \<Rightarrow> 0)"

text \<open>
  \<open>Array.prototype.sort(cmp)\<close> is stable. It is modelled as the stable insertion sort:
  for a consistent comparator this is the one result the language allows. For an
  inconsistent one (differences that are \<open>NaN\<close>) the language leaves the order to the
  engine, and an engine may order such a list differently; the properties below that
  are about such lists use only that the result is a permutation of the input.
\<close>

fun insertBy :: "('a \<Rightarrow> 'a \<Rightarrow> int) \<Rightarrow> 'a \<Rightarrow> 'a list \<Rightarrow> 'a list" where
  "insertBy cmp x [] = [x]"
| "insertBy cmp x (y # ys) = (if cmp x y \<le> 0 then x # y # ys else y # insertBy cmp x ys)"

definition sortBy :: "('a \<Rightarrow> 'a \<Rightarrow> int) \<Rightarrow> 'a list \<Rightarrow> 'a list" where
  "sortBy cmp xs = foldr (insertBy cmp) xs []"

section \<open>Movies: \<open>fetchMovies\<close> in MoviesView.jsx\<close>

text \<open>A history record of a movie, with the fields the aggregation reads.\<close>

record movie =
  m_rating_key :: jskey
  m_title :: "string option"
  m_date :: jsdate
  m_duration :: "int option"

text \<open>The record \<open>processedMovies.map\<close> builds: the movie's fields, \<open>watchDate\<close>,
  \<open>year\<close> and the title with its default (the poster fields, which no function below
  reads, are left out).\<close>

record processedMovie =
  pm_rating_key :: jskey
  pm_title :: string
  pm_date :: jsdate
  pm_duration :: "int option"
  pm_watchDate :: "int option"
  pm_year :: "int option"

definition processMovie :: "env \<Rightarrow> movie \<Rightarrow> processedMovie" where
  "processMovie e movie =
     (let watchDate = toWatchDate e (m_date movie);
          year = getFullYear e watchDate;
          movieTitle = (case m_title movie of None \<Rightarrow> ''Unknown''
                        | Some t \<Rightarrow> if t = [] then ''Unknown'' else t)
      in \<lparr> pm_rating_key = m_rating_key movie, pm_title = movieTitle,
           pm_date = m_date movie, pm_duration = m_duration movie,
           pm_watchDate = watchDate, pm_year = year \<rparr>)"

text \<open>\<open>processedMovies.sort((a, b) => b.date - a.date)\<close>\<close>

definition byDateDesc :: "env \<Rightarrow> processedMovie \<Rightarrow> processedMovie \<Rightarrow> int" where
  "byDateDesc e a b = minusOrZero (toNumber e (pm_date b)) (toNumber e (pm_date a))"

text \<open>
  The loop that fills \<open>deduplicatedMovies\<close>: index \<open>i\<close> runs over the sorted array,
  \<open>previous\<close> is \<open>processedMovies[i - 1]\<close> of the input (not of the output).
\<close>

function dedupLoop :: "processedMovie list \<Rightarrow> nat \<Rightarrow> processedMovie list \<Rightarrow> processedMovie list" where
  "dedupLoop processedMovies i acc =
     (if i < length processedMovies then
        (let current = processedMovies ! i in
         if i = 0 \<or> pm_rating_key current \<noteq> pm_rating_key (processedMovies ! (i - 1))
         then dedupLoop processedMovies (i + 1) (acc @ [current])
         else dedupLoop processedMovies (i + 1) acc)
      else acc)"
  by pat_completeness auto
termination
  by (relation "measure (\<lambda>(pm, i, acc). length pm - i)") auto

declare dedupLoop.simps [simp del]

definition deduplicatedMovies :: "processedMovie list \<Rightarrow> processedMovie list" where
  "deduplicatedMovies processedMovies = dedupLoop processedMovies 0 []"

text \<open>The values of \<open>new Set(ys)\<close> in insertion order: the first occurrence of each
  value (\<open>NaN\<close> counts as one value).\<close>

definition setValues :: "'a list \<Rightarrow> 'a list" where
  "setValues ys = rev (remdups (rev ys))"

text \<open>\<open>[...new Set(xs.map(m => m.year))].sort((a, b) => b - a)\<close>\<close>

definition uniqueYears :: "int option list \<Rightarrow> int option list" where
  "uniqueYears ys = sortBy (\<lambda>a b. minusOrZero b a) (setValues ys)"

text \<open>
  The state \<open>fetchMovies\<close> sets from the data file: \<open>movies\<close> (the display list),
  \<open>allWatchData\<close> (every watch, for the statistics) and \<open>years\<close>. An empty data file
  sets the error instead.
\<close>

record moviesState =
  mv_movies :: "processedMovie list"
  mv_allWatchData :: "processedMovie list"
  mv_years :: "int option list"

definition fetchMovies :: "env \<Rightarrow> movie list \<Rightarrow> string + moviesState" where
  "fetchMovies e movieData =
     (if length movieData > 0 then
        (let processedMovies = sortBy (byDateDesc e) (map (processMovie e) movieData);
             dedup = deduplicatedMovies processedMovies
         in Inr \<lparr> mv_movies = dedup, mv_allWatchData = processedMovies,
                  mv_years = uniqueYears (map pm_year dedup) \<rparr>)
      else Inl ''No movie data found'')"

text \<open>No two neighbours of a list carry the same identity.\<close>

fun noAdjacentDuplicates :: "processedMovie list \<Rightarrow> bool" where
  "noAdjacentDuplicates [] = True"
| "noAdjacentDuplicates [x] = True"
| "noAdjacentDuplicates (x # y # ys) =
     (pm_rating_key x \<noteq> pm_rating_key y \<and> noAdjacentDuplicates (y # ys))"

text \<open>The loop, read structurally: \<open>prev\<close> is the identity before the current position.\<close>

fun collapse :: "jskey option \<Rightarrow> processedMovie list \<Rightarrow> processedMovie list" where
  "collapse prev [] = []"
| "collapse prev (x # xs) =
     (if prev = Some (pm_rating_key x) then collapse (Some (pm_rating_key x)) xs
      else x # collapse (Some (pm_rating_key x)) xs)"


section \<open>TV shows: \<open>fetchTVShows\<close>\<close>

text \<open>A history record of an episode, with the fields the aggregation reads
  (\<open>None\<close> is a missing field; \<open>year\<close> is the release year).\<close>

record episode =
  ep_media_type :: "string option"
  ep_grandparent_title :: "string option"
  ep_parent_title :: "string option"
  ep_grandparent_rating_key :: jskey
  ep_parent_rating_key :: jskey
  ep_rating_key :: jskey
  ep_date :: jsdate
  ep_duration :: "int option"
  ep_year :: "int option"

text \<open>The object \<open>showMap\<close> holds for one show.\<close>

record tvshow =
  sh_rating_key :: jskey
  sh_title :: string
  sh_episodes :: "episode list"
  sh_firstWatched :: "int option"
  sh_lastWatched :: "int option"
  sh_totalDuration :: int

text \<open>\<open>a || b\<close> on optional strings and numbers: an empty string and 0 are falsy.\<close>

definition orString :: "string option \<Rightarrow> string option \<Rightarrow> string option" where
  "orString a b = (case a of None \<Rightarrow> b | Some s \<Rightarrow> if s = [] then b else a)"

definition orZero :: "int option \<Rightarrow> int" where
  "orZero a = (case a of None \<Rightarrow> 0 | Some n \<Rightarrow> n)"

definition orNull :: "int option \<Rightarrow> int option" where
  "orNull a = (case a of None \<Rightarrow> None | Some n \<Rightarrow> if n = 0 then None else Some n)"

text \<open>\<open>a < b\<close> and \<open>a > b\<close> on two \<open>Date\<close> objects or numbers: false when either
  is \<open>NaN\<close>.\<close>

definition lessNum :: "int option \<Rightarrow> int option \<Rightarrow> bool" where
  "lessNum a b = (case (a, b) of (Some x, Some y) \<Rightarrow> x < y | _ \<Rightarrow> False)"

definition greaterNum :: "int option \<Rightarrow> int option \<Rightarrow> bool" where
  "greaterNum a b = lessNum b a"

text \<open>
  A JavaScript \<open>Map\<close> keeps its keys in insertion order, and
  \<open>Array.from(showMap.values())\<close> reads them in that order: an association list,
  where \<open>set\<close> of a new key appends and the object of an existing key is updated
  in place.
\<close>

fun mapHas :: "('k \<times> 'v) list \<Rightarrow> 'k \<Rightarrow> bool" where
  "mapHas [] k = False"
| "mapHas ((k', v) # kvs) k = (k' = k \<or> mapHas kvs k)"

fun mapUpdate :: "('k \<times> 'v) list \<Rightarrow> 'k \<Rightarrow> ('v \<Rightarrow> 'v) \<Rightarrow> ('k \<times> 'v) list" where
  "mapUpdate [] k f = []"
| "mapUpdate ((k', v) # kvs) k f =
     (if k' = k then (k', f v) # kvs else (k', v) # mapUpdate kvs k f)"

text \<open>The body of \<open>showData.forEach\<close>.\<close>

definition groupEpisode :: "env \<Rightarrow> (jskey \<times> tvshow) list \<Rightarrow> episode \<Rightarrow> (jskey \<times> tvshow) list" where
  "groupEpisode e showMap episode =
     (if ep_media_type episode \<noteq> Some ''episode'' then showMap
      else
        let showTitle = (case orString (ep_grandparent_title episode) (ep_parent_title episode) of
                           None \<Rightarrow> ''Unknown Show''
                         | Some t \<Rightarrow> if t = [] then ''Unknown Show'' else t);
            showKey = orElse (ep_grandparent_rating_key episode)
                        (orElse (ep_parent_rating_key episode) (ep_rating_key episode));
            watchDate = toWatchDate e (ep_date episode);
            showMap1 = (if \<not> mapHas showMap showKey
                        then showMap @ [(showKey,
                               \<lparr> sh_rating_key = showKey, sh_title = showTitle, sh_episodes = [],
                                 sh_firstWatched = watchDate, sh_lastWatched = watchDate,
                                 sh_totalDuration = 0 \<rparr>)]
                        else showMap)
        in mapUpdate showMap1 showKey (\<lambda>show.
             let show1 = show\<lparr> sh_episodes := sh_episodes show @ [episode],
                              sh_totalDuration := sh_totalDuration show + orZero (ep_duration episode) \<rparr>;
                 show2 = (if lessNum watchDate (sh_firstWatched show1)
                          then show1\<lparr> sh_firstWatched := watchDate \<rparr> else show1)
             in (if greaterNum watchDate (sh_lastWatched show2)
                 then show2\<lparr> sh_lastWatched := watchDate \<rparr> else show2)))"

definition showMapOf :: "env \<Rightarrow> episode list \<Rightarrow> (jskey \<times> tvshow) list" where
  "showMapOf e showData = foldl (groupEpisode e) [] showData"

text \<open>The record \<open>Array.from(showMap.values()).map\<close> builds (without the poster
  fields, which no function below reads).\<close>

record processedShow =
  ps_rating_key :: jskey
  ps_title :: string
  ps_episodes :: "episode list"
  ps_firstWatched :: "int option"
  ps_lastWatched :: "int option"
  ps_totalDuration :: int
  ps_watchDate :: "int option"
  ps_year :: "int option"
  ps_releaseYear :: "int option"
  ps_duration :: int
  ps_episodeCount :: nat

definition processShow :: "env \<Rightarrow> tvshow \<Rightarrow> processedShow" where
  "processShow e show =
     (let watchYear = getFullYear e (sh_lastWatched show);
          releaseYear = (case sh_episodes show of [] \<Rightarrow> None | ep # _ \<Rightarrow> orNull (ep_year ep))
      in \<lparr> ps_rating_key = sh_rating_key show, ps_title = sh_title show,
           ps_episodes = sh_episodes show, ps_firstWatched = sh_firstWatched show,
           ps_lastWatched = sh_lastWatched show, ps_totalDuration = sh_totalDuration show,
           ps_watchDate = sh_lastWatched show, ps_year = watchYear,
           ps_releaseYear = releaseYear, ps_duration = sh_totalDuration show,
           ps_episodeCount = length (sh_episodes show) \<rparr>)"

definition processedShows :: "env \<Rightarrow> episode list \<Rightarrow> processedShow list" where
  "processedShows e showData = map (processShow e \<circ> snd) (showMapOf e showData)"

text \<open>
  \<open>show.title.toLowerCase().trim()\<close>, on ASCII text: the letters A to Z are lowered,
  and tab, line feed, vertical tab, form feed, carriage return and space are trimmed.
\<close>

definition lowerChar :: "char \<Rightarrow> char" where
  "lowerChar c = (let n = (of_char c :: nat) in if 65 \<le> n \<and> n \<le> 90 then char_of (n + 32) else c)"

definition isSpace :: "char \<Rightarrow> bool" where
  "isSpace c = (let n = (of_char c :: nat) in (9 \<le> n \<and> n \<le> 13) \<or> n = 32)"

definition toLowerCase :: "string \<Rightarrow> string" where
  "toLowerCase s = map lowerChar s"

definition trim :: "string \<Rightarrow> string" where
  "trim s = rev (dropWhile isSpace (rev (dropWhile isSpace s)))"

definition normalizedTitle :: "processedShow \<Rightarrow> string" where
  "normalizedTitle show = trim (toLowerCase (ps_title show))"

text \<open>\<open>deduplicatedShows.indexOf(existing)\<close>; \<open>None\<close> is \<open>-1\<close>.\<close>

fun indexOf :: "'a list \<Rightarrow> 'a \<Rightarrow> nat option" where
  "indexOf [] x = None"
| "indexOf (y # ys) x = (if y = x then Some 0 else map_option Suc (indexOf ys x))"

text \<open>The test that replaces the kept show by the current one.\<close>

definition betterShow :: "processedShow \<Rightarrow> processedShow \<Rightarrow> bool" where
  "betterShow show existing =
     (ps_episodeCount show > ps_episodeCount existing
      \<or> (ps_episodeCount show = ps_episodeCount existing
         \<and> greaterNum (ps_watchDate show) (ps_watchDate existing)))"

text \<open>The body of \<open>processedShows.forEach\<close>, on the pair of \<open>deduplicatedShows\<close> and
  \<open>showsByTitle\<close>.\<close>

definition mergeShow ::
  "processedShow list \<times> (string \<rightharpoonup> processedShow) \<Rightarrow> processedShow
   \<Rightarrow> processedShow list \<times> (string \<rightharpoonup> processedShow)" where
  "mergeShow st show =
     (let deduplicated = fst st; showsByTitle = snd st;
          normalized = normalizedTitle show
      in case showsByTitle normalized of
           None \<Rightarrow> (deduplicated @ [show], showsByTitle(normalized \<mapsto> show))
         | Some existing \<Rightarrow>
             if betterShow show existing then
               (case indexOf deduplicated existing of
                  None \<Rightarrow> (deduplicated, showsByTitle)
                | Some index \<Rightarrow> (deduplicated[index := show], showsByTitle(normalized \<mapsto> show)))
             else (deduplicated, showsByTitle))"

definition deduplicatedShows :: "processedShow list \<Rightarrow> processedShow list" where
  "deduplicatedShows shows = fst (foldl mergeShow ([], Map.empty) shows)"

text \<open>\<open>deduplicatedShows.sort((a, b) => b.watchDate - a.watchDate)\<close>\<close>

definition byWatchDateDesc :: "processedShow \<Rightarrow> processedShow \<Rightarrow> int" where
  "byWatchDateDesc a b = minusOrZero (ps_watchDate b) (ps_watchDate a)"

definition displayShows :: "processedShow list \<Rightarrow> processedShow list" where
  "displayShows processed = sortBy byWatchDateDesc (deduplicatedShows processed)"

text \<open>
  \<open>fetchShows\<close> is the part of \<open>fetchTVShows\<close> that runs when the cache has nothing
  under the key. The state it sets from the data file: \<open>shows\<close> (the display list) and
  \<open>years\<close>, and the list it hands to the cache as \<open>processed\<close>. An empty data file
  sets the error instead. The per-episode list \<open>allEpisodeWatches\<close> of the statistics
  is not part of this model.
\<close>

record tvState =
  tv_shows :: "processedShow list"
  tv_years :: "int option list"
  tv_cachedProcessed :: "processedShow list"

definition fetchShows :: "env \<Rightarrow> episode list \<Rightarrow> string + tvState" where
  "fetchShows e showData =
     (if length showData > 0 then
        (let processed = processedShows e showData;
             deduplicated = displayShows processed
         in Inr \<lparr> tv_shows = deduplicated,
                  tv_years = uniqueYears (map ps_year deduplicated),
                  tv_cachedProcessed = processed \<rparr>)
      else Inl ''No TV show data found'')"

text \<open>
  The value \<open>fetchTVShows\<close> stores under the cache key, \<open>{ processed, allWatchData,
  years }\<close> (without \<open>allWatchData\<close>), and the value a state leaves in the cache.
\<close>

record tvCacheData =
  cd_processed :: "processedShow list"
  cd_years :: "int option list"

definition cacheDataOf :: "tvState \<Rightarrow> tvCacheData" where
  "cacheDataOf st = \<lparr> cd_processed = tv_cachedProcessed st, cd_years = tv_years st \<rparr>"

text \<open>
  \<open>fetchTVShows\<close>, with \<open>cachedData\<close> what \<open>cache.get(cacheKey)\<close> returned
  (\<open>None\<close> for a miss). On a hit the state is set from the cached value,
  \<open>setShows(cachedData.processed)\<close> and \<open>setYears(cachedData.years)\<close>, the data
  file is not read and the cache keeps its value.
\<close>

definition fetchTVShows :: "env \<Rightarrow> tvCacheData option \<Rightarrow> episode list \<Rightarrow> string + tvState" where
  "fetchTVShows e cachedData showData =
     (case cachedData of
        Some cd \<Rightarrow> Inr \<lparr> tv_shows = cd_processed cd, tv_years = cd_years cd,
                          tv_cachedProcessed = cd_processed cd \<rparr>
      | None \<Rightarrow> fetchShows e showData)"

text \<open>
  The invariant of the merge loop, with \<open>seen\<close> the shows processed so far: the kept
  shows have pairwise different normalized titles, \<open>showsByTitle\<close> maps exactly the
  normalized titles of the kept shows to them, every kept show was seen, and every show
  seen is represented by a kept show of its normalized title that it does not beat.
\<close>

definition mergeInv ::
  "processedShow set \<Rightarrow> processedShow list \<times> (string \<rightharpoonup> processedShow) \<Rightarrow> bool" where
  "mergeInv seen st =
     (distinct (map normalizedTitle (fst st))
      \<and> (\<forall>t s. snd st t = Some s \<longleftrightarrow> (s \<in> set (fst st) \<and> normalizedTitle s = t))
      \<and> set (fst st) \<subseteq> seen
      \<and> (\<forall>s \<in> seen. \<exists>d \<in> set (fst st). normalizedTitle d = normalizedTitle s \<and> \<not> betterShow s d))"


section \<open>Year tabs and the top 3 of a year\<close>

text \<open>
  The \<open>year\<close> argument of the per-year functions is the active tab: the string
  \<open>current\<close>, or a string that \<open>parseInt\<close> reads (\<open>None\<close> when the result is
  \<open>NaN\<close>).
\<close>

datatype tab = Current | Parsed "int option"

definition targetYear :: "env \<Rightarrow> tab \<Rightarrow> int option" where
  "targetYear e t = (case t of Current \<Rightarrow> Some (fullYear e (now e)) | Parsed y \<Rightarrow> y)"

text \<open>\<open>a === b\<close> on two numbers: \<open>NaN\<close> equals nothing.\<close>

definition strictEq :: "int option \<Rightarrow> int option \<Rightarrow> bool" where
  "strictEq a b = (case (a, b) of (Some x, Some y) \<Rightarrow> x = y | _ \<Rightarrow> False)"

text \<open>
  What \<open>Map.get\<close> returns for a year, or a year field that may be absent:
  \<open>None\<close> is \<open>undefined\<close> or \<open>null\<close>, \<open>Some None\<close> is \<open>NaN\<close>. \<open>falsy\<close> is
  \<open>!existing\<close>, and \<open>getEq\<close> the test \<open>map.get(k) === targetYear\<close>.
\<close>

definition falsy :: "int option option \<Rightarrow> bool" where
  "falsy existing = (case existing of None \<Rightarrow> True | Some None \<Rightarrow> True | Some (Some y) \<Rightarrow> y = 0)"

definition getEq :: "int option option \<Rightarrow> int option \<Rightarrow> bool" where
  "getEq v target = (case v of Some y \<Rightarrow> strictEq y target | None \<Rightarrow> False)"

definition lessThanGet :: "int option \<Rightarrow> int option option \<Rightarrow> bool" where
  "lessThanGet a existing = (case existing of Some y \<Rightarrow> lessNum a y | None \<Rightarrow> False)"

text \<open>\<open>getMoviesByYear\<close>, and the filter \<open>allYearWatches\<close> of \<open>getYearStats\<close>
  (every processed movie carries a \<open>watchDate\<close> object, so its year is read from it).\<close>

definition getMoviesByYear :: "env \<Rightarrow> processedMovie list \<Rightarrow> tab \<Rightarrow> processedMovie list" where
  "getMoviesByYear e movies t = filter (\<lambda>m. strictEq (pm_year m) (targetYear e t)) movies"

definition allYearWatches :: "env \<Rightarrow> processedMovie list \<Rightarrow> tab \<Rightarrow> processedMovie list" where
  "allYearWatches e allWatchData t =
     filter (\<lambda>m. strictEq (getFullYear e (pm_watchDate m)) (targetYear e t)) allWatchData"

text \<open>An entry of a ranking list (\<open>rankings\<close>), as the ranking file stores it.\<close>

record ranking =
  r_rating_key :: jskey
  r_title :: string

subsection \<open>Movies: \<open>getTop3ForYear\<close> in MoviesView.jsx\<close>

text \<open>The body of \<open>allWatchData.forEach\<close>, on the map \<open>firstWatchDates\<close>. Every
  processed movie carries a \<open>watchDate\<close> object (truthy also when it is an Invalid
  Date), so \<open>watchYear\<close> is always read from it.\<close>

definition firstWatchStep ::
  "env \<Rightarrow> (jskey \<rightharpoonup> int option) \<Rightarrow> processedMovie \<Rightarrow> (jskey \<rightharpoonup> int option)" where
  "firstWatchStep e firstWatchDates movie =
     (if truthy (pm_rating_key movie) then
        (let watchYear = getFullYear e (pm_watchDate movie);
             existing = firstWatchDates (pm_rating_key movie)
         in if falsy existing \<or> lessThanGet watchYear existing
            then firstWatchDates(pm_rating_key movie \<mapsto> watchYear)
            else firstWatchDates)
      else firstWatchDates)"

definition firstWatchDatesOf :: "env \<Rightarrow> processedMovie list \<Rightarrow> (jskey \<rightharpoonup> int option)" where
  "firstWatchDatesOf e allWatchData = foldl (firstWatchStep e) Map.empty allWatchData"

definition getTop3ForYear_movies ::
  "env \<Rightarrow> ranking list \<Rightarrow> processedMovie list \<Rightarrow> tab \<Rightarrow> ranking list" where
  "getTop3ForYear_movies e rankings allWatchData t =
     take 3 (filter (\<lambda>r. getEq (firstWatchDatesOf e allWatchData (r_rating_key r)) (targetYear e t))
               rankings)"

subsection \<open>TV shows: \<open>getTop3ForYear\<close> of the TV view\<close>

text \<open>The body of \<open>shows.forEach\<close>, on the map \<open>releaseYearsByRatingKey\<close>; a
  release year is \<open>null\<close> (\<open>None\<close>) or a number.\<close>

definition releaseYearStep ::
  "(jskey \<rightharpoonup> int) \<Rightarrow> processedShow \<Rightarrow> (jskey \<rightharpoonup> int)" where
  "releaseYearStep releaseYears show =
     (if truthy (ps_rating_key show) \<and> orNull (ps_releaseYear show) \<noteq> None
      then (case ps_releaseYear show of Some y \<Rightarrow> releaseYears(ps_rating_key show \<mapsto> y)
            | None \<Rightarrow> releaseYears)
      else releaseYears)"

definition releaseYearsByRatingKey :: "processedShow list \<Rightarrow> (jskey \<rightharpoonup> int)" where
  "releaseYearsByRatingKey xs = foldl releaseYearStep Map.empty xs"

text \<open>The TV view returns the titles of the entries, \<open>yearRankings.map(r => r.title)\<close>.\<close>

definition getTop3ForYear_tv ::
  "env \<Rightarrow> ranking list \<Rightarrow> processedShow list \<Rightarrow> tab \<Rightarrow> string list" where
  "getTop3ForYear_tv e rankings xs t =
     map r_title
       (take 3 (filter (\<lambda>r. strictEq (releaseYearsByRatingKey xs (r_rating_key r)) (targetYear e t))
                  rankings))"

subsection \<open>Comics: the two versions of \<open>getTop3ForYear\<close>\<close>

text \<open>
  A processed read of a comic issue, with the fields the two functions read. A year
  field is \<open>None\<close> when it is missing, \<open>null\<close> or \<open>NaN\<close> (all falsy); \<open>watchDate\<close> is
  \<open>None\<close> when the field is missing and \<open>Some None\<close> for an Invalid Date.
\<close>

record comic =
  c_seriesId :: jskey
  c_rating_key :: jskey
  c_watchDate :: "int option option"
  c_year :: "int option"
  c_readYear :: "int option"
  c_issueReleaseYear :: "int option"

text \<open>\<open>comic.watchDate ? comic.watchDate.getFullYear() : (comic.year || null)\<close>\<close>

definition comicReadYear :: "env \<Rightarrow> comic \<Rightarrow> int option option" where
  "comicReadYear e c =
     (case c_watchDate c of
        Some d \<Rightarrow> Some (getFullYear e d)
      | None \<Rightarrow> map_option Some (orNull (c_year c)))"

text \<open>ComicBooksView.jsx: the body of both \<open>forEach\<close> loops, on
  \<open>readYearsByRatingKey\<close>, which keeps the most recent read year of a series.\<close>

definition readYearStep ::
  "env \<Rightarrow> (jskey \<rightharpoonup> int option) \<Rightarrow> comic \<Rightarrow> (jskey \<rightharpoonup> int option)" where
  "readYearStep e readYears c =
     (let key = orElse (c_seriesId c) (c_rating_key c) in
      if truthy key then
        (case comicReadYear e c of
           None \<Rightarrow> readYears
         | Some readYear \<Rightarrow>
             (let existing = readYears key in
              if falsy existing \<or> (case existing of Some y \<Rightarrow> greaterNum readYear y | None \<Rightarrow> False)
              then readYears(key \<mapsto> readYear) else readYears))
      else readYears)"

definition getTop3ForYear_comics ::
  "env \<Rightarrow> ranking list \<Rightarrow> comic list \<Rightarrow> comic list \<Rightarrow> tab \<Rightarrow> ranking list" where
  "getTop3ForYear_comics e rankings comics allReadData t =
     (let readYears = foldl (readYearStep e) (foldl (readYearStep e) Map.empty allReadData) comics
      in take 3 (filter (\<lambda>r. truthy (r_rating_key r)
                            \<and> getEq (readYears (r_rating_key r)) (targetYear e t))
                   rankings))"

text \<open>
  The other version (the comics view kept after the movie view in MoviesView.jsx): the
  body of \<open>allReadData.forEach\<close>, on the set \<open>eligibleSeries\<close>. A series is added
  when one of its issues was read and released in the target year.
\<close>

text \<open>\<open>comic.readYear || (comic.watchDate ? comic.watchDate.getFullYear() :
  (comic.year || null))\<close>, the year an issue was read in.\<close>

definition issueReadYear :: "env \<Rightarrow> comic \<Rightarrow> int option option" where
  "issueReadYear e c =
     (case orNull (c_readYear c) of
        Some y \<Rightarrow> Some (Some y)
      | None \<Rightarrow> comicReadYear e c)"

definition eligibleStep :: "env \<Rightarrow> int option \<Rightarrow> jskey set \<Rightarrow> comic \<Rightarrow> jskey set" where
  "eligibleStep e target eligibleSeries c =
     (let key = orElse (c_seriesId c) (c_rating_key c) in
      if \<not> truthy key then eligibleSeries
      else
        (let readYear = issueReadYear e c;
             issueReleaseYear = c_issueReleaseYear c
         in if getEq readYear target \<and> issueReleaseYear \<noteq> None \<and> strictEq issueReleaseYear target
            then insert key eligibleSeries else eligibleSeries))"

definition getTop3ForYear_comicIssues ::
  "env \<Rightarrow> ranking list \<Rightarrow> comic list \<Rightarrow> tab \<Rightarrow> ranking list" where
  "getTop3ForYear_comicIssues e rankings allReadData t =
     (let eligibleSeries = foldl (eligibleStep e (targetYear e t)) {} allReadData
      in take 3 (filter (\<lambda>r. truthy (r_rating_key r) \<and> r_rating_key r \<in> eligibleSeries)
                   rankings))"


section \<open>The client cache: class \<open>DataCache\<close>\<close>

text \<open>
  An entry of either tier: the memory map holds \<open>{ value, timestamp }\<close>, the object
  store \<open>{ key, value, timestamp }\<close> under its key. The durable store is \<open>None\<close>
  when IndexedDB cannot be opened (\<open>initDB\<close> rejects and the \<open>catch\<close> branches
  run). Timestamps are \<open>Date.now()\<close> readings in milliseconds.
\<close>

record 'v cacheEntry =
  ce_value :: 'v
  ce_timestamp :: int

record 'v DataCache =
  memoryCache :: "string \<rightharpoonup> 'v cacheEntry"
  store :: "(string \<rightharpoonup> 'v cacheEntry) option"

definition CACHE_EXPIRATION_MS :: int where
  "CACHE_EXPIRATION_MS = 24 * 60 * 60 * 1000"

text \<open>
  The second half of \<open>get\<close>: the lookup in IndexedDB, at clock reading \<open>nowDb\<close>. The
  test \<open>result && result.timestamp\<close> takes a record with timestamp 0 for a missing
  one. A fresh record is copied to the memory map; an expired one is deleted. (A read
  request that fails also answers \<open>null\<close>, like a store that cannot be opened.)
\<close>

definition getFromStore :: "int \<Rightarrow> string \<Rightarrow> 'v DataCache \<Rightarrow> 'v option \<times> 'v DataCache" where
  "getFromStore nowDb key c =
     (case store c of
        None \<Rightarrow> (None, c)
      | Some db \<Rightarrow>
          (case db key of
             None \<Rightarrow> (None, c)
           | Some result \<Rightarrow>
               if ce_timestamp result \<noteq> 0 then
                 (let age = nowDb - ce_timestamp result in
                  if age < CACHE_EXPIRATION_MS
                  then (Some (ce_value result),
                        c\<lparr> memoryCache := (memoryCache c)(key \<mapsto>
                             \<lparr> ce_value = ce_value result, ce_timestamp = ce_timestamp result \<rparr>) \<rparr>)
                  else (None, c\<lparr> store := Some (db(key := None)) \<rparr>))
               else (None, c)))"

text \<open>
  \<open>get(key)\<close>: \<open>Date.now()\<close> is read once for the memory tier (\<open>nowMem\<close>) and once
  more in the IndexedDB callback (\<open>nowDb\<close>). The result is the cached value, or
  \<open>None\<close> for \<open>null\<close>.
\<close>

definition get :: "int \<Rightarrow> int \<Rightarrow> string \<Rightarrow> 'v DataCache \<Rightarrow> 'v option \<times> 'v DataCache" where
  "get nowMem nowDb key c =
     (case memoryCache c key of
        Some cached \<Rightarrow>
          if nowMem - ce_timestamp cached < CACHE_EXPIRATION_MS
          then (Some (ce_value cached), c)
          else getFromStore nowDb key (c\<lparr> memoryCache := (memoryCache c)(key := None) \<rparr>)
      | None \<Rightarrow> getFromStore nowDb key c)"

text \<open>\<open>set(key, value)\<close> at clock reading \<open>timestamp\<close>.\<close>

definition set_cache :: "int \<Rightarrow> string \<Rightarrow> 'v \<Rightarrow> 'v DataCache \<Rightarrow> 'v DataCache" where
  "set_cache timestamp key v c =
     c\<lparr> memoryCache := (memoryCache c)(key \<mapsto> \<lparr> ce_value = v, ce_timestamp = timestamp \<rparr>),
        store := map_option (\<lambda>db. db(key \<mapsto> \<lparr> ce_value = v, ce_timestamp = timestamp \<rparr>)) (store c) \<rparr>"

text \<open>A new cache whose IndexedDB opens, empty in both tiers.\<close>

definition emptyCache :: "'v DataCache" where
  "emptyCache = \<lparr> memoryCache = Map.empty, store = Some Map.empty \<rparr>"


section \<open>The ranking routes of the proxy server\<close>

text \<open>JSON values, as \<open>express.json()\<close> hands a request body to a handler and as
  \<open>res.json\<close> sends one.\<close>

datatype json = JNull | JBool bool | JNum int | JStr string | JArr "json list"
  | JObj "(string \<times> json) list"

text \<open>Truthiness of a body, as \<open>!rankings\<close> tests it: arrays and objects are truthy.\<close>

fun truthyJson :: "json \<Rightarrow> bool" where
  "truthyJson JNull = False"
| "truthyJson (JBool b) = b"
| "truthyJson (JNum n) = (n \<noteq> 0)"
| "truthyJson (JStr s) = (s \<noteq> [])"
| "truthyJson (JArr xs) = True"
| "truthyJson (JObj kvs) = True"

text \<open>
  The disk: a file is modelled by what \<open>JSON.parse\<close> makes of its text (\<open>None\<close> when
  it throws), so that writing \<open>JSON.stringify(v, null, 2)\<close> stores \<open>Some v\<close>.
  \<open>writeError\<close> gives the message of the exception \<open>writeFileSync\<close> throws for a
  path that cannot be written.
\<close>

record disk =
  files :: "string \<rightharpoonup> json option"
  writeError :: "string \<rightharpoonup> string"

definition writeFileSync :: "disk \<Rightarrow> string \<Rightarrow> json \<Rightarrow> string + disk" where
  "writeFileSync d path v =
     (case writeError d path of
        Some message \<Rightarrow> Inl message
      | None \<Rightarrow> Inr (d\<lparr> files := (files d)(path \<mapsto> Some v) \<rparr>))"

record response =
  status :: nat
  body :: json

definition rankingsDir :: string where
  "rankingsDir = ''public/data''"

definition getRankingsPath :: "string \<Rightarrow> string" where
  "getRankingsPath contentType =
     (if contentType = ''tv'' then rankingsDir @ ''/tv-rankings.json''
      else if contentType = ''comics'' then rankingsDir @ ''/comic-rankings.json''
      else rankingsDir @ ''/movie-rankings.json'')"

text \<open>
  \<open>app.get('/api/rankings/:contentType')\<close>. Reading \<open>rankings.length\<close> for the log
  line throws when the file holds \<open>null\<close>; like a file that does not parse, this
  ends in the \<open>catch\<close> branch.
\<close>

definition getRankings :: "disk \<Rightarrow> string \<Rightarrow> response" where
  "getRankings d contentType =
     (let filePath = getRankingsPath contentType in
      case files d filePath of
        None \<Rightarrow> \<lparr> status = 200, body = JArr [] \<rparr>
      | Some None \<Rightarrow> \<lparr> status = 500, body = JObj [(''error'', JStr ''Failed to read rankings'')] \<rparr>
      | Some (Some rankings) \<Rightarrow>
          if rankings = JNull
          then \<lparr> status = 500, body = JObj [(''error'', JStr ''Failed to read rankings'')] \<rparr>
          else \<lparr> status = 200, body = rankings \<rparr>)"

text \<open>\<open>app.post('/api/rankings/:contentType')\<close>; a request without a parsed body has
  \<open>req.body\<close> undefined (\<open>None\<close>).\<close>

definition postRankings :: "disk \<Rightarrow> string \<Rightarrow> json option \<Rightarrow> response \<times> disk" where
  "postRankings d contentType reqBody =
     (case reqBody of
        None \<Rightarrow> (\<lparr> status = 400, body = JObj [(''error'', JStr ''No rankings data provided'')] \<rparr>, d)
      | Some rankings \<Rightarrow>
          if \<not> truthyJson rankings
          then (\<lparr> status = 400, body = JObj [(''error'', JStr ''No rankings data provided'')] \<rparr>, d)
          else
            (case rankings of
               JArr xs \<Rightarrow>
                 (let filePath = getRankingsPath contentType in
                  case writeFileSync d filePath rankings of
                    Inl message \<Rightarrow>
                      (\<lparr> status = 500, body = JObj [(''error'', JStr ''Failed to save rankings''),
                                                     (''details'', JStr message)] \<rparr>, d)
                  | Inr d' \<Rightarrow>
                      (\<lparr> status = 200, body = JObj [(''success'', JBool True),
                                                     (''count'', JNum (int (length xs)))] \<rparr>, d'))
             | _ \<Rightarrow> (\<lparr> status = 400, body = JObj [(''error'', JStr ''Rankings must be an array'')] \<rparr>, d)))"


text \<open>
  The body of a POST as it reaches the server: a request that is not of type
  \<open>application/json\<close>, or JSON text of some length in bytes together with what
  \<open>JSON.parse\<close> makes of it (\<open>None\<close> when it throws).
\<close>

datatype payload = NotJson | JsonText nat "json option"

text \<open>
  \<open>app.use(express.json())\<close> runs before every handler, with its defaults: a limit of
  100 kB and strict mode. A body over the limit ends in the error 413 and text that
  does not parse, or parses to something other than an array or an object, in the error
  400; Express's error handler answers with that status and the handler is not run.
  Otherwise the handler gets the parsed value, and \<open>{}\<close> for a request without JSON
  or with an empty body.
\<close>

definition jsonLimit :: nat where
  "jsonLimit = 100 * 1024"

fun isArrayOrObject :: "json \<Rightarrow> bool" where
  "isArrayOrObject (JArr xs) = True"
| "isArrayOrObject (JObj kvs) = True"
| "isArrayOrObject v = False"

definition expressJson :: "payload \<Rightarrow> nat + json option" where
  "expressJson p =
     (case p of
        NotJson \<Rightarrow> Inr (Some (JObj []))
      | JsonText len parsed \<Rightarrow>
          if len > jsonLimit then Inl 413
          else if len = 0 then Inr (Some (JObj []))
          else (case parsed of
                  None \<Rightarrow> Inl 400
                | Some v \<Rightarrow> if isArrayOrObject v then Inr (Some v) else Inl 400))"

text \<open>
  A POST to \<open>/api/rankings/:contentType\<close>, through the parser and the handler. The
  error page of Express's error handler is not JSON; only its status is modelled.
\<close>

definition postRoute :: "disk \<Rightarrow> string \<Rightarrow> payload \<Rightarrow> response \<times> disk" where
  "postRoute d contentType p =
     (case expressJson p of
        Inl code \<Rightarrow> (\<lparr> status = code, body = JNull \<rparr>, d)
      | Inr reqBody \<Rightarrow> postRankings d contentType reqBody)"

section \<open>The ranking editor: AdminRankingTab.jsx\<close>

text \<open>
  The state updaters passed to \<open>setRankings\<close>, as functions of the current list. An
  entry of the list is a ranking entry or \<open>undefined\<close> (\<open>None\<close>), which a drop can
  insert. A number here is an integer or \<open>NaN\<close>, as \<open>parseInt\<close> returns it; every
  comparison with \<open>NaN\<close> is false.
\<close>

datatype jsnum = NaN | Num int

fun numLess :: "jsnum \<Rightarrow> int \<Rightarrow> bool" where
  "numLess NaN b = False"
| "numLess (Num a) b = (a < b)"

fun numGeq :: "jsnum \<Rightarrow> int \<Rightarrow> bool" where
  "numGeq NaN b = False"
| "numGeq (Num a) b = (a \<ge> b)"

text \<open>
  \<open>Array.prototype.splice(start, ...)\<close> reads \<open>NaN\<close> as 0 and clamps its start: a
  negative one counts from the end, one beyond the end is the end.
\<close>

definition spliceStart :: "jsnum \<Rightarrow> nat \<Rightarrow> nat" where
  "spliceStart start len =
     (case start of
        NaN \<Rightarrow> 0
      | Num s \<Rightarrow> if s < 0 then nat (max (int len + s) 0) else min (nat s) len)"

text \<open>\<open>xs.splice(start, 1)\<close> and \<open>xs.splice(start, 0, item)\<close>, returning the array.\<close>

definition spliceRemove1 :: "'a list \<Rightarrow> jsnum \<Rightarrow> 'a list" where
  "spliceRemove1 xs start = (let i = spliceStart start (length xs) in take i xs @ drop (i + 1) xs)"

definition spliceInsert :: "'a list \<Rightarrow> jsnum \<Rightarrow> 'a \<Rightarrow> 'a list" where
  "spliceInsert xs start item = (let i = spliceStart start (length xs) in take i xs @ [item] @ drop i xs)"

text \<open>
  \<open>handleDrop\<close>: \<open>draggedIndex\<close> is the component state (\<open>None\<close> for \<open>null\<close>),
  \<open>transferIndex\<close> is \<open>parseInt(e.dataTransfer.getData('text/plain') || '-1')\<close>:
  the index the drag started from, \<open>-1\<close> without drag data, \<open>NaN\<close> for drag data
  that is not a number (text or an image dragged from elsewhere).
  \<open>newRankings[NaN]\<close> is \<open>undefined\<close>. The call of \<open>saveRankings\<close> in the updater
  is a call of an async function and does not throw.
\<close>

definition handleDrop ::
  "int option \<Rightarrow> jsnum \<Rightarrow> int \<Rightarrow> ranking option list \<Rightarrow> ranking option list" where
  "handleDrop draggedIndex transferIndex dropIndex currentRankings =
     (let sourceIndex = (case draggedIndex of None \<Rightarrow> transferIndex | Some i \<Rightarrow> Num i) in
      if sourceIndex = Num (-1) \<or> sourceIndex = Num dropIndex then currentRankings
      else if numLess sourceIndex 0 \<or> numGeq sourceIndex (int (length currentRankings))
      then currentRankings
      else
        (let draggedItem = (case sourceIndex of
                              NaN \<Rightarrow> None
                            | Num s \<Rightarrow> currentRankings ! nat s);
             newRankings = spliceRemove1 currentRankings sourceIndex;
             adjustedDropIndex = (if numLess sourceIndex dropIndex then dropIndex - 1
                                  else dropIndex)
         in spliceInsert newRankings (Num adjustedDropIndex) draggedItem))"

text \<open>
  \<open>addToRankings\<close> and \<open>removeFromRankings\<close> read \<open>r.rating_key\<close> of the entries
  they visit, which throws a TypeError on an \<open>undefined\<close> entry: \<open>some\<close> visits the
  entries up to the first match, \<open>filter\<close> all of them.
\<close>

datatype editorError = TypeError

fun someSameKey :: "jskey \<Rightarrow> ranking option list \<Rightarrow> editorError + bool" where
  "someSameKey k [] = Inr False"
| "someSameKey k (None # rs) = Inl TypeError"
| "someSameKey k (Some r # rs) = (if r_rating_key r = k then Inr True else someSameKey k rs)"

definition addToRankings :: "ranking \<Rightarrow> ranking option list \<Rightarrow> editorError + ranking option list" where
  "addToRankings movie currentRankings =
     (case someSameKey (r_rating_key movie) currentRankings of
        Inl err \<Rightarrow> Inl err
      | Inr found \<Rightarrow> if found then Inr currentRankings
                     else Inr (currentRankings @ [Some movie]))"

definition removeFromRankings :: "jskey \<Rightarrow> ranking option list \<Rightarrow> editorError + ranking option list" where
  "removeFromRankings ratingKey currentRankings =
     (if list_ex (\<lambda>r. r = None) currentRankings then Inl TypeError
      else Inr (filter (\<lambda>r. map_option r_rating_key r \<noteq> Some ratingKey) currentRankings))"

text \<open>The identities of the entries of a list (\<open>None\<close> for an \<open>undefined\<close> entry).\<close>

definition identities :: "ranking option list \<Rightarrow> jskey option list" where
  "identities rs = map (map_option r_rating_key) rs"


section \<open>Example data\<close>

text \<open>
  An environment for the examples: the clock stands in June 2025, a year is 1970 plus
  the number of whole mean Gregorian years since the epoch, and no string is a date or
  a number.
\<close>

definition exampleEnv :: env where
  "exampleEnv = \<lparr> now = 1750000000000, fullYear = (\<lambda>ms. 1970 + ms div 31556952000),
                   parseDate = (\<lambda>s. None), stringToNumber = (\<lambda>s. None) \<rparr>"

text \<open>One movie watched in June 2023 and again in June 2024, and a record without a
  date.\<close>

definition heat2023 :: movie where
  "heat2023 = \<lparr> m_rating_key = KNum 1, m_title = Some ''Heat'', m_date = DNum 1685577600,
                m_duration = Some 10200 \<rparr>"

definition heat2024 :: movie where
  "heat2024 = \<lparr> m_rating_key = KNum 1, m_title = Some ''Heat'', m_date = DNum 1717200000,
                m_duration = Some 10200 \<rparr>"

definition undatedAlien :: movie where
  "undatedAlien = \<lparr> m_rating_key = KNum 2, m_title = Some ''Alien'', m_date = DUndefined,
                    m_duration = None \<rparr>"

definition rankHeat :: ranking where
  "rankHeat = \<lparr> r_rating_key = KNum 1, r_title = ''Heat'' \<rparr>"

text \<open>An episode of a show released in 2022, watched in June 2024.\<close>

definition severanceEpisode :: episode where
  "severanceEpisode = \<lparr> ep_media_type = Some ''episode'',
      ep_grandparent_title = Some ''Severance'', ep_parent_title = Some ''Season 1'',
      ep_grandparent_rating_key = KNum 10, ep_parent_rating_key = KNum 11,
      ep_rating_key = KNum 12, ep_date = DNum 1717200000, ep_duration = Some 3000,
      ep_year = Some 2022 \<rparr>"

text \<open>Episodes of two shows of different identity whose titles differ in case and
  surrounding blanks only.\<close>

definition lostEpisodeA :: episode where
  "lostEpisodeA = \<lparr> ep_media_type = Some ''episode'',
      ep_grandparent_title = Some ''Lost'', ep_parent_title = Some ''Season 1'',
      ep_grandparent_rating_key = KNum 1, ep_parent_rating_key = KNum 101,
      ep_rating_key = KNum 102, ep_date = DNum 1717200000, ep_duration = Some 2500,
      ep_year = Some 2004 \<rparr>"

definition lostEpisodeB :: episode where
  "lostEpisodeB = \<lparr> ep_media_type = Some ''episode'',
      ep_grandparent_title = Some '' LOST  '', ep_parent_title = Some ''Season 2'',
      ep_grandparent_rating_key = KNum 2, ep_parent_rating_key = KNum 201,
      ep_rating_key = KNum 202, ep_date = DNum 1717300000, ep_duration = Some 2500,
      ep_year = Some 2004 \<rparr>"

definition rankSeverance :: ranking where
  "rankSeverance = \<lparr> r_rating_key = KNum 10, r_title = ''Severance'' \<rparr>"

text \<open>An issue of a comic series released in 2023 and read in June 2023.\<close>

definition sagaIssue :: comic where
  "sagaIssue = \<lparr> c_seriesId = KStr ''saga'', c_rating_key = KStr ''saga'',
      c_watchDate = Some (Some 1685577600000), c_year = Some 2023, c_readYear = None,
      c_issueReleaseYear = Some 2023 \<rparr>"

definition rankSaga :: ranking where
  "rankSaga = \<lparr> r_rating_key = KStr ''saga'', r_title = ''Saga'' \<rparr>"

text \<open>A disk that holds a movie ranking file and can be written.\<close>

definition exampleDisk :: disk where
  "exampleDisk = \<lparr> files = [''public/data/movie-rankings.json'' \<mapsto> Some (JArr [JStr ''old''])],
                    writeError = Map.empty \<rparr>"

text \<open>The same disk when the ranking file cannot be written.\<close>

definition readOnlyDisk :: disk where
  "readOnlyDisk = \<lparr> files = [''public/data/movie-rankings.json'' \<mapsto> Some (JArr [JStr ''old''])],
                     writeError = [''public/data/movie-rankings.json'' \<mapsto> ''EACCES''] \<rparr>"



text \<open>Two processed shows whose titles differ in case and surrounding blanks only.\<close>

definition lostFirst :: processedShow where
  "lostFirst = \<lparr> ps_rating_key = KNum 1, ps_title = ''Lost'', ps_episodes = [],
      ps_firstWatched = Some 1000, ps_lastWatched = Some 5000, ps_totalDuration = 0,
      ps_watchDate = Some 5000, ps_year = Some 2023, ps_releaseYear = Some 2004,
      ps_duration = 0, ps_episodeCount = 3 \<rparr>"

definition lostSecond :: processedShow where
  "lostSecond = \<lparr> ps_rating_key = KNum 2, ps_title = '' LOST  '', ps_episodes = [],
      ps_firstWatched = Some 2000, ps_lastWatched = Some 4000, ps_totalDuration = 0,
      ps_watchDate = Some 4000, ps_year = Some 2023, ps_releaseYear = Some 2004,
      ps_duration = 0, ps_episodeCount = 5 \<rparr>"


section \<open>Properties of the movie aggregation\<close>

lemma dedupLoop_collapse:
  "i \<le> length pm \<Longrightarrow>
   dedupLoop pm i acc =
     acc @ collapse (if i = 0 then None else Some (pm_rating_key (pm ! (i - 1)))) (drop i pm)"
proof (induction pm i acc rule: dedupLoop.induct)
  case (1 pm i acc)
  show ?case
  proof (cases "i < length pm")
    case False
    with "1.prems" show ?thesis by (subst dedupLoop.simps) simp
  next
    case True
    then have d: "drop i pm = pm ! i # drop (Suc i) pm"
      by (simp add: Cons_nth_drop_Suc)
    from True have le: "i + 1 \<le> length pm" by simp
    show ?thesis
    proof (cases "i = 0 \<or> pm_rating_key (pm ! i) \<noteq> pm_rating_key (pm ! (i - 1))")
      case keep: True
      from "1.IH"(1)[OF True refl keep le] True keep d show ?thesis
        by (subst dedupLoop.simps) (auto simp: Let_def)
    next
      case skip: False
      from "1.IH"(2)[OF True refl skip le] True skip d show ?thesis
        by (subst dedupLoop.simps) (auto simp: Let_def)
    qed
  qed
qed

lemma deduplicatedMovies_collapse: "deduplicatedMovies pm = collapse None pm"
  using dedupLoop_collapse[of 0 pm "[]"] by (simp add: deduplicatedMovies_def)

lemma collapse_head:
  "collapse prev xs = y # ys \<Longrightarrow> prev \<noteq> Some (pm_rating_key y)"
  by (induction xs arbitrary: prev) (auto split: if_splits)

lemma noAdjacentDuplicates_collapse: "noAdjacentDuplicates (collapse prev xs)"
proof (induction xs arbitrary: prev)
  case Nil
  show ?case by simp
next
  case (Cons x xs)
  show ?case
  proof (cases "collapse (Some (pm_rating_key x)) xs")
    case Nil
    then show ?thesis by simp
  next
    case (Cons y ys)
    from collapse_head[OF Cons] have "pm_rating_key x \<noteq> pm_rating_key y" by simp
    moreover from Cons.IH[of "Some (pm_rating_key x)"] Cons
    have "noAdjacentDuplicates (y # ys)" by simp
    ultimately show ?thesis using Cons Cons.IH[of "Some (pm_rating_key x)"] by simp
  qed
qed

lemma collapse_fixed:
  "noAdjacentDuplicates xs \<Longrightarrow> (case xs of [] \<Rightarrow> True | x # _ \<Rightarrow> prev \<noteq> Some (pm_rating_key x))
   \<Longrightarrow> collapse prev xs = xs"
proof (induction xs arbitrary: prev)
  case Nil
  show ?case by simp
next
  case (Cons x xs)
  then show ?case by (cases xs) auto
qed

lemma collapse_idem: "collapse None (collapse None xs) = collapse None xs"
  by (rule collapse_fixed) (auto simp: noAdjacentDuplicates_collapse split: list.splits)

lemma mset_insertBy: "mset (insertBy cmp x xs) = add_mset x (mset xs)"
  by (induction xs) auto

lemma mset_sortBy: "mset (sortBy cmp xs) = mset xs"
  by (induction xs) (auto simp: sortBy_def mset_insertBy)

lemma set_sortBy: "set (sortBy cmp xs) = set xs"
  using mset_sortBy[of cmp xs] by (metis set_mset_mset)

lemma length_sortBy: "length (sortBy cmp xs) = length xs"
  using mset_sortBy[of cmp xs] by (metis size_mset)

text \<open>
  Where the comparator agrees with a numeric key on the elements of the list, the
  sorted list is descending by that key. So \<open>allWatchData\<close> is descending by
  \<open>date\<close> when every \<open>date\<close> is a number.
\<close>

lemma insertBy_sorted_desc:
  assumes "sorted_wrt (\<lambda>a b. key b \<le> (key a :: int)) xs"
    and "\<And>b. b \<in> set xs \<Longrightarrow> (cmp x b \<le> 0 \<longleftrightarrow> key b \<le> key x)"
  shows "sorted_wrt (\<lambda>a b. key b \<le> key a) (insertBy cmp x xs)"
  using assms
proof (induction xs)
  case Nil
  show ?case by simp
next
  case (Cons y ys)
  have s: "set (insertBy cmp x ys) = insert x (set ys)"
    using mset_insertBy[of cmp x ys] by (metis set_mset_add_mset_insert set_mset_mset)
  show ?case
  proof (cases "cmp x y \<le> 0")
    case True
    with Cons.prems have "key y \<le> key x" by simp
    with True Cons.prems(1) show ?thesis by auto
  next
    case False
    with Cons.prems have "key x \<le> key y" by auto
    moreover have "sorted_wrt (\<lambda>a b. key b \<le> key a) (insertBy cmp x ys)"
      using Cons.IH Cons.prems by simp
    ultimately show ?thesis using False Cons.prems(1) by (simp add: s)
  qed
qed

lemma sortBy_sorted_desc:
  assumes "\<And>a b. a \<in> set xs \<Longrightarrow> b \<in> set xs \<Longrightarrow> (cmp a b \<le> 0 \<longleftrightarrow> key b \<le> (key a :: int))"
  shows "sorted_wrt (\<lambda>a b. key b \<le> key a) (sortBy cmp xs)"
  using assms
proof (induction xs)
  case Nil
  show ?case by (simp add: sortBy_def)
next
  case (Cons x xs)
  then have "sorted_wrt (\<lambda>a b. key b \<le> key a) (sortBy cmp xs)" by simp
  moreover have "\<And>b. b \<in> set (sortBy cmp xs) \<Longrightarrow> (cmp x b \<le> 0 \<longleftrightarrow> key b \<le> key x)"
    using Cons.prems by (simp add: set_sortBy)
  ultimately have "sorted_wrt (\<lambda>a b. key b \<le> key a) (insertBy cmp x (sortBy cmp xs))"
    by (rule insertBy_sorted_desc)
  then show ?case by (simp add: sortBy_def)
qed

lemma allWatchData_sorted_desc:
  assumes "\<forall>m \<in> set movieData. \<exists>n. m_date m = DNum n"
  shows "sorted_wrt (\<lambda>a b. orZero (toNumber e (pm_date b)) \<le> orZero (toNumber e (pm_date a)))
           (sortBy (byDateDesc e) (map (processMovie e) movieData))"
proof (rule sortBy_sorted_desc)
  fix a b
  assume "a \<in> set (map (processMovie e) movieData)" "b \<in> set (map (processMovie e) movieData)"
  moreover have "\<forall>p \<in> set (map (processMovie e) movieData). \<exists>n. pm_date p = DNum n"
    using assms by (auto simp: processMovie_def Let_def)
  ultimately obtain n k where "pm_date a = DNum n" "pm_date b = DNum k"
    by blast
  then show "byDateDesc e a b \<le> 0
      \<longleftrightarrow> orZero (toNumber e (pm_date b)) \<le> orZero (toNumber e (pm_date a))"
    by (simp add: byDateDesc_def minusOrZero_def orZero_def)
qed

text \<open>
  Claim C3. The display list of movies is the sorted list of watch events with every
  run of neighbours of one identity (\<open>rating_key\<close>) collapsed to its first entry: no two
  adjacent entries of it have the same identity, collapsing it again changes nothing,
  and this holds for every input list, sorted or not. \<open>fetchMovies\<close> keeps the full
  sorted list (a permutation of all processed events) beside it as \<open>allWatchData\<close>, and
  the display list is the collapse of exactly that list.
\<close>

theorem C3_consecutive_dedup:
  "noAdjacentDuplicates (deduplicatedMovies pm)
   \<and> deduplicatedMovies (deduplicatedMovies pm) = deduplicatedMovies pm
   \<and> (case fetchMovies e movieData of
        Inl err \<Rightarrow> movieData = []
      | Inr st \<Rightarrow>
          mset (mv_allWatchData st) = mset (map (processMovie e) movieData)
          \<and> length (mv_allWatchData st) = length movieData
          \<and> mv_movies st = deduplicatedMovies (mv_allWatchData st)
          \<and> noAdjacentDuplicates (mv_movies st)
          \<and> deduplicatedMovies (mv_movies st) = mv_movies st)"
proof -
  have a: "noAdjacentDuplicates (deduplicatedMovies xs)" for xs
    by (simp add: deduplicatedMovies_collapse noAdjacentDuplicates_collapse)
  have b: "deduplicatedMovies (deduplicatedMovies xs) = deduplicatedMovies xs" for xs
    by (simp add: deduplicatedMovies_collapse collapse_idem)
  show ?thesis
    by (cases movieData)
       (simp_all add: fetchMovies_def Let_def a b mset_sortBy length_sortBy del: mset_map)
qed


text \<open>
  Claim C10. A movie record whose \<open>date\<close> is neither a number nor a string gets the
  wall-clock time as its watch date and the clock's year as its year. It is not dropped:
  \<open>fetchMovies\<close> succeeds, the processed record is in \<open>allWatchData\<close> (which has one
  entry for each record of the data file), and it falls into the current year's bucket
  of the statistics and, where the display list holds it, of the display list.
\<close>

theorem C10_undated_movie_uses_clock:
  assumes "movie \<in> set movieData"
    and "\<forall>n. m_date movie \<noteq> DNum n" and "\<forall>s. m_date movie \<noteq> DStr s"
  shows "pm_watchDate (processMovie e movie) = Some (now e)
     \<and> pm_year (processMovie e movie) = Some (fullYear e (now e))
     \<and> (\<exists>st. fetchMovies e movieData = Inr st
           \<and> length (mv_allWatchData st) = length movieData
           \<and> processMovie e movie \<in> set (mv_allWatchData st)
           \<and> processMovie e movie \<in> set (allYearWatches e (mv_allWatchData st) Current)
           \<and> (processMovie e movie \<in> set (mv_movies st)
                \<longrightarrow> processMovie e movie \<in> set (getMoviesByYear e (mv_movies st) Current)))"
proof -
  from assms(2,3) have w: "toWatchDate e (m_date movie) = Some (now e)"
    by (cases "m_date movie") auto
  then have wd: "pm_watchDate (processMovie e movie) = Some (now e)"
    and yr: "pm_year (processMovie e movie) = Some (fullYear e (now e))"
    by (simp_all add: processMovie_def Let_def getFullYear_def)
  from assms(1) have ne: "length movieData > 0" by (cases movieData) auto
  define st where "st = \<lparr> mv_movies = deduplicatedMovies (sortBy (byDateDesc e) (map (processMovie e) movieData)),
      mv_allWatchData = sortBy (byDateDesc e) (map (processMovie e) movieData),
      mv_years = uniqueYears (map pm_year
         (deduplicatedMovies (sortBy (byDateDesc e) (map (processMovie e) movieData)))) \<rparr>"
  have f: "fetchMovies e movieData = Inr st"
    using ne by (simp add: fetchMovies_def Let_def st_def)
  have len: "length (mv_allWatchData st) = length movieData"
    by (simp add: st_def length_sortBy)
  have mem: "processMovie e movie \<in> set (mv_allWatchData st)"
    using assms(1) by (simp add: st_def set_sortBy)
  have stat: "processMovie e movie \<in> set (allYearWatches e (mv_allWatchData st) Current)"
    using mem wd by (simp add: allYearWatches_def targetYear_def strictEq_def getFullYear_def)
  have disp: "processMovie e movie \<in> set (mv_movies st)
                \<longrightarrow> processMovie e movie \<in> set (getMoviesByYear e (mv_movies st) Current)"
    using yr by (simp add: getMoviesByYear_def targetYear_def strictEq_def)
  from wd yr f len mem stat disp show ?thesis by blast
qed

theorem C10_undated_movie_uses_clock_witness:
  "undatedAlien \<in> set [heat2023, undatedAlien] \<and> m_date undatedAlien = DUndefined
   \<and> pm_watchDate (processMovie exampleEnv undatedAlien) = Some 1750000000000
   \<and> pm_year (processMovie exampleEnv undatedAlien) = Some 2025
   \<and> (\<exists>st. fetchMovies exampleEnv [heat2023, undatedAlien] = Inr st
         \<and> length (mv_allWatchData st) = 2
         \<and> processMovie exampleEnv undatedAlien \<in> set (mv_allWatchData st)
         \<and> processMovie exampleEnv undatedAlien
             \<in> set (allYearWatches exampleEnv (mv_allWatchData st) Current))"
proof -
  have d: "m_date undatedAlien = DUndefined" by (simp add: undatedAlien_def)
  have h1: "undatedAlien \<in> set [heat2023, undatedAlien]" by simp
  have h2: "\<forall>n. m_date undatedAlien \<noteq> DNum n" and h3: "\<forall>s. m_date undatedAlien \<noteq> DStr s"
    by (simp_all add: d)
  have n: "now exampleEnv = 1750000000000" and y: "fullYear exampleEnv 1750000000000 = 2025"
    by (simp_all add: exampleEnv_def)
  from C10_undated_movie_uses_clock[OF h1 h2 h3, of exampleEnv] d h1 show ?thesis
    unfolding n y by auto
qed

section \<open>Properties of the TV aggregation\<close>

lemma mapUpdate_keys: "map fst (mapUpdate m k f) = map fst m"
  by (induction m) auto

lemma mapHas_iff: "mapHas m k \<longleftrightarrow> k \<in> fst ` set m"
  by (induction m) auto

lemma mapUpdate_count:
  assumes "mapHas m k" and "\<And>v. length (sh_episodes (f v)) = Suc (length (sh_episodes v))"
  shows "sum_list (map (\<lambda>kv. length (sh_episodes (snd kv))) (mapUpdate m k f))
         = Suc (sum_list (map (\<lambda>kv. length (sh_episodes (snd kv))) m))"
  using assms(1) by (induction m) (auto simp: assms(2))

lemma mapUpdate_mset:
  assumes "mapHas m k" and "\<And>v. mset (sh_episodes (f v)) = add_mset ep (mset (sh_episodes v))"
  shows "sum_list (map (\<lambda>kv. mset (sh_episodes (snd kv))) (mapUpdate m k f))
         = add_mset ep (sum_list (map (\<lambda>kv. mset (sh_episodes (snd kv))) m))"
  using assms(1) by (induction m) (auto simp: assms(2))

lemma groupEpisode_count:
  "sum_list (map (\<lambda>kv. length (sh_episodes (snd kv))) (groupEpisode e m ep))
   = sum_list (map (\<lambda>kv. length (sh_episodes (snd kv))) m)
     + (if ep_media_type ep = Some ''episode'' then 1 else 0)"
proof (cases "ep_media_type ep = Some ''episode''")
  case False
  then show ?thesis by (simp add: groupEpisode_def)
next
  case True
  define k where "k = orElse (ep_grandparent_rating_key ep)
                        (orElse (ep_parent_rating_key ep) (ep_rating_key ep))"
  show ?thesis
  proof (cases "mapHas m k")
    case True
    with \<open>ep_media_type ep = Some ''episode''\<close> show ?thesis
      unfolding groupEpisode_def Let_def k_def[symmetric]
      by (simp add: mapUpdate_count)
  next
    case False
    then have "mapHas (m @ [(k, v)]) k" for v
      by (simp add: mapHas_iff)
    with False \<open>ep_media_type ep = Some ''episode''\<close> show ?thesis
      unfolding groupEpisode_def Let_def k_def[symmetric]
      by (simp add: mapUpdate_count)
  qed
qed

lemma groupEpisode_mset:
  "sum_list (map (\<lambda>kv. mset (sh_episodes (snd kv))) (groupEpisode e m ep))
   = sum_list (map (\<lambda>kv. mset (sh_episodes (snd kv))) m)
     + (if ep_media_type ep = Some ''episode'' then {#ep#} else {#})"
proof (cases "ep_media_type ep = Some ''episode''")
  case False
  then show ?thesis by (simp add: groupEpisode_def)
next
  case True
  define k where "k = orElse (ep_grandparent_rating_key ep)
                        (orElse (ep_parent_rating_key ep) (ep_rating_key ep))"
  show ?thesis
  proof (cases "mapHas m k")
    case True
    with \<open>ep_media_type ep = Some ''episode''\<close> show ?thesis
      unfolding groupEpisode_def Let_def k_def[symmetric]
      by (simp add: mapUpdate_mset[where ep = ep])
  next
    case False
    then have "mapHas (m @ [(k, v)]) k" for v
      by (simp add: mapHas_iff)
    with False \<open>ep_media_type ep = Some ''episode''\<close> show ?thesis
      unfolding groupEpisode_def Let_def k_def[symmetric]
      by (simp add: mapUpdate_mset[where ep = ep])
  qed
qed

lemma foldl_groupEpisode_count:
  "sum_list (map (\<lambda>kv. length (sh_episodes (snd kv))) (foldl (groupEpisode e) m eps))
   = sum_list (map (\<lambda>kv. length (sh_episodes (snd kv))) m)
     + length (filter (\<lambda>ep. ep_media_type ep = Some ''episode'') eps)"
  by (induction eps arbitrary: m) (simp_all add: groupEpisode_count)

lemma foldl_groupEpisode_mset:
  "sum_list (map (\<lambda>kv. mset (sh_episodes (snd kv))) (foldl (groupEpisode e) m eps))
   = sum_list (map (\<lambda>kv. mset (sh_episodes (snd kv))) m)
     + mset (filter (\<lambda>ep. ep_media_type ep = Some ''episode'') eps)"
  by (induction eps arbitrary: m) (simp_all add: groupEpisode_mset)

text \<open>
  Claim C4. After the episodes are grouped by show identity, the episode counts of the
  shows add up to the number of episode events of the data file (its records whose
  \<open>media_type\<close> is \<open>episode\<close>), and the episode lists of the shows together hold
  exactly these events, each one once.
\<close>

theorem C4_episode_counts_sum:
  "sum_list (map ps_episodeCount (processedShows e showData))
     = length (filter (\<lambda>ep. ep_media_type ep = Some ''episode'') showData)
   \<and> mset (concat (map ps_episodes (processedShows e showData)))
     = mset (filter (\<lambda>ep. ep_media_type ep = Some ''episode'') showData)"
proof
  have "map ps_episodeCount (processedShows e showData)
        = map (\<lambda>kv. length (sh_episodes (snd kv))) (showMapOf e showData)"
    by (simp add: processedShows_def processShow_def Let_def)
  then show "sum_list (map ps_episodeCount (processedShows e showData))
     = length (filter (\<lambda>ep. ep_media_type ep = Some ''episode'') showData)"
    using foldl_groupEpisode_count[of e "[]" showData] by (simp add: showMapOf_def)
next
  have "map (mset \<circ> ps_episodes) (processedShows e showData)
        = map (\<lambda>kv. mset (sh_episodes (snd kv))) (showMapOf e showData)"
    by (simp add: processedShows_def processShow_def Let_def)
  then show "mset (concat (map ps_episodes (processedShows e showData)))
     = mset (filter (\<lambda>ep. ep_media_type ep = Some ''episode'') showData)"
    using foldl_groupEpisode_mset[of e "[]" showData]
    by (simp add: showMapOf_def mset_concat)
qed

lemma indexOf_member:
  "x \<in> set xs \<Longrightarrow> \<exists>i. indexOf xs x = Some i \<and> i < length xs \<and> xs ! i = x"
  by (induction xs) auto

lemma betterShow_irrefl: "\<not> betterShow s s"
  by (simp add: betterShow_def greaterNum_def lessNum_def split: option.splits)

lemma betterShow_replace:
  "betterShow s' x \<Longrightarrow> \<not> betterShow s x \<Longrightarrow> \<not> betterShow s s'"
  by (auto simp: betterShow_def greaterNum_def lessNum_def split: option.splits)

lemma mergeInv_init: "mergeInv {} ([], Map.empty)"
  by (simp add: mergeInv_def)

lemma mergeInv_step:
  assumes inv: "mergeInv seen st"
  shows "mergeInv (insert show seen) (mergeShow st show)"
proof -
  obtain dd bt where st: "st = (dd, bt)" by (cases st)
  from inv st have dist: "distinct (map normalizedTitle dd)"
    and bt: "\<And>t s. bt t = Some s \<longleftrightarrow> (s \<in> set dd \<and> normalizedTitle s = t)"
    and sub: "set dd \<subseteq> seen"
    and rep: "\<And>s. s \<in> seen \<Longrightarrow> \<exists>d \<in> set dd. normalizedTitle d = normalizedTitle s \<and> \<not> betterShow s d"
    by (auto simp: mergeInv_def)
  show ?thesis
  proof (cases "bt (normalizedTitle show)")
    case None
    then have fresh: "normalizedTitle show \<notin> normalizedTitle ` set dd"
      using bt by (metis imageE option.distinct(1))
    have m: "mergeShow st show = (dd @ [show], bt(normalizedTitle show \<mapsto> show))"
      using None by (simp add: mergeShow_def st)
    have "distinct (map normalizedTitle (dd @ [show]))"
      using dist fresh by simp
    moreover have "\<forall>t s. (bt(normalizedTitle show \<mapsto> show)) t = Some s
        \<longleftrightarrow> (s \<in> set (dd @ [show]) \<and> normalizedTitle s = t)"
    proof (intro allI)
      fix t s
      have ne: "s \<in> set dd \<Longrightarrow> normalizedTitle s \<noteq> normalizedTitle show"
        using fresh by (metis imageI)
      show "(bt(normalizedTitle show \<mapsto> show)) t = Some s
        \<longleftrightarrow> (s \<in> set (dd @ [show]) \<and> normalizedTitle s = t)"
        using bt[of t s] ne by (cases "t = normalizedTitle show") auto
    qed
    moreover have "set (dd @ [show]) \<subseteq> insert show seen"
      using sub by auto
    moreover have "\<forall>s \<in> insert show seen. \<exists>d \<in> set (dd @ [show]).
        normalizedTitle d = normalizedTitle s \<and> \<not> betterShow s d"
      using rep betterShow_irrefl by auto
    ultimately show ?thesis
      unfolding m mergeInv_def fst_conv snd_conv by blast
  next
    case (Some existing)
    then have ex: "existing \<in> set dd" "normalizedTitle existing = normalizedTitle show"
      using bt by auto
    show ?thesis
    proof (cases "betterShow show existing")
      case False
      then have m: "mergeShow st show = (dd, bt)"
        using Some by (simp add: mergeShow_def st)
      have "\<forall>s \<in> insert show seen. \<exists>d \<in> set dd.
          normalizedTitle d = normalizedTitle s \<and> \<not> betterShow s d"
        using rep ex False by auto
      then show ?thesis
        unfolding m mergeInv_def fst_conv snd_conv using dist bt sub by blast
    next
      case True
      from indexOf_member[OF ex(1)] obtain i where
        i: "indexOf dd existing = Some i" "i < length dd" "dd ! i = existing" by blast
      have m: "mergeShow st show = (dd[i := show], bt(normalizedTitle show \<mapsto> show))"
        using Some True i by (simp add: mergeShow_def st)
      have titles: "map normalizedTitle (dd[i := show]) = map normalizedTitle dd"
        using i ex by (simp add: map_update list_update_same_conv)
      have distdd: "distinct dd" using dist by (simp add: distinct_map)
      have setdd: "set (dd[i := show]) = insert show (set dd - {existing})"
        using i distdd by (simp add: set_update_distinct)
      have inj: "inj_on normalizedTitle (set dd)"
        using dist by (simp add: distinct_map)
      have other: "d = existing" if "d \<in> set dd" "normalizedTitle d = normalizedTitle show" for d
        by (rule inj_onD[OF inj _ that(1) ex(1)]) (simp add: that(2) ex(2))
      have "distinct (map normalizedTitle (dd[i := show]))"
        using dist titles by simp
      moreover have "\<forall>t s. (bt(normalizedTitle show \<mapsto> show)) t = Some s
          \<longleftrightarrow> (s \<in> set (dd[i := show]) \<and> normalizedTitle s = t)"
      proof (intro allI)
        fix t s
        show "(bt(normalizedTitle show \<mapsto> show)) t = Some s
          \<longleftrightarrow> (s \<in> set (dd[i := show]) \<and> normalizedTitle s = t)"
        proof (cases "t = normalizedTitle show")
          case True
          have "s = show" if "s \<in> set dd - {existing}" "normalizedTitle s = normalizedTitle show"
            using that other[of s] by simp
          then show ?thesis unfolding setdd using True by auto
        next
          case False
          then have "s \<noteq> existing" if "normalizedTitle s = t" using that ex(2) by auto
          then show ?thesis unfolding setdd using False bt[of t s] by auto
        qed
      qed
      moreover have "set (dd[i := show]) \<subseteq> insert show seen"
        unfolding setdd using sub by auto
      moreover have "\<forall>s \<in> insert show seen. \<exists>d \<in> set (dd[i := show]).
          normalizedTitle d = normalizedTitle s \<and> \<not> betterShow s d"
      proof
        fix s assume "s \<in> insert show seen"
        then consider "s = show" | "s \<in> seen" by auto
        then show "\<exists>d \<in> set (dd[i := show]). normalizedTitle d = normalizedTitle s \<and> \<not> betterShow s d"
        proof cases
          case 1
          then show ?thesis unfolding setdd using betterShow_irrefl by auto
        next
          case 2
          from rep[OF 2] obtain d where d: "d \<in> set dd" "normalizedTitle d = normalizedTitle s"
            "\<not> betterShow s d" by blast
          show ?thesis
          proof (cases "d = existing")
            case True
            with d betterShow_replace[OF \<open>betterShow show existing\<close>, of s] ex
            show ?thesis unfolding setdd by auto
          next
            case False
            with d show ?thesis unfolding setdd by auto
          qed
        qed
      qed
      ultimately show ?thesis
        unfolding m mergeInv_def fst_conv snd_conv by blast
    qed
  qed
qed

lemma mergeInv_foldl:
  "mergeInv seen st \<Longrightarrow> mergeInv (seen \<union> set ps) (foldl mergeShow st ps)"
proof (induction ps arbitrary: seen st)
  case Nil
  then show ?case by simp
next
  case (Cons s ps)
  from Cons.IH[OF mergeInv_step[OF Cons.prems, of s]] show ?case by simp
qed

lemma mergeInv_deduplicatedShows:
  "mergeInv (set ps) (foldl mergeShow ([], Map.empty) ps)"
  using mergeInv_foldl[OF mergeInv_init, of ps] by simp

lemma filter_distinct_map_single:
  "distinct (map f xs) \<Longrightarrow> x \<in> set xs \<Longrightarrow> filter (\<lambda>y. f y = f x) xs = [x]"
proof (induction xs)
  case Nil
  then show ?case by simp
next
  case (Cons a xs)
  show ?case
  proof (cases "a = x")
    case True
    have "f y \<noteq> f x" if "y \<in> set xs" for y
      using Cons.prems(1) True that by (metis distinct.simps(2) imageI list.simps(9) set_map)
    then have "filter (\<lambda>y. f y = f x) xs = []"
      by (simp add: filter_empty_conv)
    with True show ?thesis by simp
  next
    case False
    with Cons.prems have "x \<in> set xs" "f a \<noteq> f x" by auto
    with Cons show ?thesis by simp
  qed
qed

lemma filter_sortBy_single:
  assumes "filter P xs = [x]"
  shows "filter P (sortBy cmp xs) = [x]"
proof -
  have "mset (filter P (sortBy cmp xs)) = mset (filter P xs)"
    by (simp add: mset_sortBy)
  also have "\<dots> = {#x#}"
    unfolding assms by simp
  finally show ?thesis
    by (simp only: mset_single_iff)
qed

text \<open>
  The merge on a load from the data file. Whenever two shows of the aggregated list have
  titles that are equal after lowercasing and trimming, the display list holds exactly
  one entry of that normalized title. The entry is one of the aggregated shows, and neither of the two beats it: each
  has at most as many episodes, and one with as many episodes has no later
  \<open>watchDate\<close> (the latest watch of the show). So of the two, the one with fewer
  episodes, or with as many episodes and the earlier latest watch, is not displayed.
\<close>

lemma displayShows_same_title_merged:
  assumes "s1 \<in> set processed" and "s2 \<in> set processed"
    and "normalizedTitle s1 = normalizedTitle s2"
  shows "\<exists>d. filter (\<lambda>x. normalizedTitle x = normalizedTitle s1) (displayShows processed) = [d]
           \<and> d \<in> set processed
           \<and> ps_episodeCount s1 \<le> ps_episodeCount d
           \<and> ps_episodeCount s2 \<le> ps_episodeCount d
           \<and> (ps_episodeCount s1 = ps_episodeCount d
                \<longrightarrow> \<not> greaterNum (ps_watchDate s1) (ps_watchDate d))
           \<and> (ps_episodeCount s2 = ps_episodeCount d
                \<longrightarrow> \<not> greaterNum (ps_watchDate s2) (ps_watchDate d))
           \<and> (betterShow s1 s2 \<longrightarrow> d \<noteq> s2)
           \<and> (betterShow s2 s1 \<longrightarrow> d \<noteq> s1)"
proof -
  define dd where "dd = deduplicatedShows processed"
  from mergeInv_deduplicatedShows[of processed]
  have dist: "distinct (map normalizedTitle dd)"
    and sub: "set dd \<subseteq> set processed"
    and rep: "\<And>s. s \<in> set processed \<Longrightarrow>
                \<exists>d \<in> set dd. normalizedTitle d = normalizedTitle s \<and> \<not> betterShow s d"
    by (auto simp: mergeInv_def dd_def deduplicatedShows_def)
  from rep[OF assms(1)] obtain d where d: "d \<in> set dd" "normalizedTitle d = normalizedTitle s1"
    "\<not> betterShow s1 d" by blast
  from rep[OF assms(2)] obtain d' where d': "d' \<in> set dd" "normalizedTitle d' = normalizedTitle s2"
    "\<not> betterShow s2 d'" by blast
  have inj: "inj_on normalizedTitle (set dd)"
    using dist by (simp add: distinct_map)
  have "d' = d"
    by (rule inj_onD[OF inj _ d'(1) d(1)]) (simp add: d(2) d'(2) assms(3))
  with d' have n2: "\<not> betterShow s2 d" by simp
  have "filter (\<lambda>x. normalizedTitle x = normalizedTitle d) dd = [d]"
    using dist d(1) by (rule filter_distinct_map_single)
  then have "filter (\<lambda>x. normalizedTitle x = normalizedTitle s1) (displayShows processed) = [d]"
    unfolding displayShows_def dd_def[symmetric] d(2) by (rule filter_sortBy_single)
  moreover have "d \<in> set processed" using d(1) sub by auto
  moreover have "ps_episodeCount s1 \<le> ps_episodeCount d"
    "ps_episodeCount s1 = ps_episodeCount d \<longrightarrow> \<not> greaterNum (ps_watchDate s1) (ps_watchDate d)"
    using d(3) by (auto simp: betterShow_def)
  moreover have "ps_episodeCount s2 \<le> ps_episodeCount d"
    "ps_episodeCount s2 = ps_episodeCount d \<longrightarrow> \<not> greaterNum (ps_watchDate s2) (ps_watchDate d)"
    using n2 by (auto simp: betterShow_def)
  moreover have "betterShow s1 s2 \<longrightarrow> d \<noteq> s2" using d(3) by auto
  moreover have "betterShow s2 s1 \<longrightarrow> d \<noteq> s1" using n2 by auto
  ultimately show ?thesis by blast
qed

lemma normalizedTitle_lostFirst: "normalizedTitle lostFirst = ''lost''"
  by code_simp

lemma normalizedTitle_lostSecond: "normalizedTitle lostSecond = ''lost''"
  by code_simp

lemma displayShows_same_title_merged_example:
  "lostFirst \<in> set [lostFirst, lostSecond] \<and> lostSecond \<in> set [lostFirst, lostSecond]
   \<and> normalizedTitle lostFirst = normalizedTitle lostSecond
   \<and> ps_rating_key lostFirst \<noteq> ps_rating_key lostSecond
   \<and> betterShow lostSecond lostFirst
   \<and> filter (\<lambda>x. normalizedTitle x = normalizedTitle lostFirst)
        (displayShows [lostFirst, lostSecond]) = [lostSecond]"
proof -
  have t: "normalizedTitle lostFirst = normalizedTitle lostSecond"
    by (simp add: normalizedTitle_lostFirst normalizedTitle_lostSecond)
  have b: "betterShow lostSecond lostFirst"
    by (simp add: betterShow_def lostFirst_def lostSecond_def)
  have k: "ps_rating_key lostFirst \<noteq> ps_rating_key lostSecond"
    by (simp add: lostFirst_def lostSecond_def)
  from displayShows_same_title_merged[of lostFirst "[lostFirst, lostSecond]" lostSecond, OF _ _ t]
  obtain d where d: "filter (\<lambda>x. normalizedTitle x = normalizedTitle lostFirst)
        (displayShows [lostFirst, lostSecond]) = [d]"
    "d \<in> set [lostFirst, lostSecond]" "betterShow lostSecond lostFirst \<longrightarrow> d \<noteq> lostFirst"
    by auto
  with b have "d = lostSecond" by auto
  with d(1) t b k show ?thesis by simp
qed

text \<open>
  Claim C5 holds of a load from the data file (above) and fails on the load that follows
  it from the cache. The data file has one episode each of two shows of different
  identity whose titles both normalize to \<open>lost\<close>. The first load, with nothing in
  the cache, displays one of them, the one watched later. It leaves \<open>processed:
  processedShows\<close> in the cache, the list before the merge, and the next load sets the
  displayed shows from it: both shows are displayed, unmerged.
\<close>

theorem C5_cache_hit_displays_both:
  "\<not> isl (fetchTVShows exampleEnv None [lostEpisodeA, lostEpisodeB])
   \<and> map ps_rating_key
        (tv_shows (projr (fetchTVShows exampleEnv None [lostEpisodeA, lostEpisodeB])))
      = [KNum 2]
   \<and> map ps_rating_key
        (tv_shows (projr (fetchTVShows exampleEnv
           (Some (cacheDataOf (projr (fetchTVShows exampleEnv None [lostEpisodeA, lostEpisodeB]))))
           [lostEpisodeA, lostEpisodeB])))
      = [KNum 1, KNum 2]
   \<and> map normalizedTitle
        (tv_shows (projr (fetchTVShows exampleEnv
           (Some (cacheDataOf (projr (fetchTVShows exampleEnv None [lostEpisodeA, lostEpisodeB]))))
           [lostEpisodeA, lostEpisodeB])))
      = [''lost'', ''lost'']"
  by code_simp


section \<open>Properties of the top 3 of a year\<close>

lemma top3_shape:
  "subseq (take 3 (filter P xs)) xs \<and> length (take 3 (filter P xs)) \<le> 3
   \<and> set (take 3 (filter P xs)) \<subseteq> set xs"
proof -
  have "subseq (take 3 (filter P xs)) (filter P xs)"
    by (simp add: prefix_imp_subseq take_is_prefix)
  then have "subseq (take 3 (filter P xs)) xs"
    using subseq_filter_left subseq_order.trans by blast
  moreover have "set (take 3 (filter P xs)) \<subseteq> set xs"
    using set_take_subset[of 3 "filter P xs"] by auto
  ultimately show ?thesis by simp
qed

lemma foldl_snoc_fw: "firstWatchDatesOf e (xs @ [x]) = firstWatchStep e (firstWatchDatesOf e xs) x"
  by (simp add: firstWatchDatesOf_def)

lemma firstWatchDates_inv:
  assumes "\<forall>m \<in> set xs. \<exists>y. getFullYear e (pm_watchDate m) = Some y \<and> y \<noteq> 0"
  shows "case firstWatchDatesOf e xs k of
           None \<Rightarrow> \<not> truthy k \<or> (\<forall>m \<in> set xs. pm_rating_key m \<noteq> k)
         | Some v \<Rightarrow> truthy k \<and> (\<exists>y. v = Some y \<and> y \<noteq> 0
               \<and> (\<exists>m \<in> set xs. pm_rating_key m = k \<and> getFullYear e (pm_watchDate m) = Some y)
               \<and> (\<forall>m \<in> set xs. pm_rating_key m = k \<longrightarrow>
                     (\<exists>y'. getFullYear e (pm_watchDate m) = Some y' \<and> y \<le> y')))"
  using assms
proof (induction xs rule: rev_induct)
  case Nil
  show ?case by (simp add: firstWatchDatesOf_def)
next
  case (snoc x xs)
  then obtain yx where yx: "getFullYear e (pm_watchDate x) = Some yx" "yx \<noteq> 0" by auto
  from snoc have IH: "case firstWatchDatesOf e xs k of
           None \<Rightarrow> \<not> truthy k \<or> (\<forall>m \<in> set xs. pm_rating_key m \<noteq> k)
         | Some v \<Rightarrow> truthy k \<and> (\<exists>y. v = Some y \<and> y \<noteq> 0
               \<and> (\<exists>m \<in> set xs. pm_rating_key m = k \<and> getFullYear e (pm_watchDate m) = Some y)
               \<and> (\<forall>m \<in> set xs. pm_rating_key m = k \<longrightarrow>
                     (\<exists>y'. getFullYear e (pm_watchDate m) = Some y' \<and> y \<le> y')))" by simp
  show ?case
  proof (cases "pm_rating_key x = k \<and> truthy k")
    case False
    then have "firstWatchDatesOf e (xs @ [x]) k = firstWatchDatesOf e xs k"
      by (auto simp: foldl_snoc_fw firstWatchStep_def Let_def)
    with IH False show ?thesis by (auto split: option.splits)
  next
    case True
    show ?thesis
    proof (cases "firstWatchDatesOf e xs k")
      case None
      then have "firstWatchDatesOf e (xs @ [x]) k = Some (Some yx)"
        using True yx by (simp add: foldl_snoc_fw firstWatchStep_def Let_def falsy_def)
      with IH None True yx show ?thesis by (auto split: option.splits)
    next
      case (Some v)
      with IH obtain y where y: "v = Some y" "y \<noteq> 0"
        "\<exists>m \<in> set xs. pm_rating_key m = k \<and> getFullYear e (pm_watchDate m) = Some y"
        "\<forall>m \<in> set xs. pm_rating_key m = k \<longrightarrow>
                     (\<exists>y'. getFullYear e (pm_watchDate m) = Some y' \<and> y \<le> y')" by auto
      show ?thesis
      proof (cases "yx < y")
        case lt: True
        then have "firstWatchDatesOf e (xs @ [x]) k = Some (Some yx)"
          using True yx Some y by (simp add: foldl_snoc_fw firstWatchStep_def Let_def falsy_def lessThanGet_def lessNum_def)
        with True yx y lt show ?thesis by (fastforce split: option.splits)
      next
        case ge: False
        then have "firstWatchDatesOf e (xs @ [x]) k = Some (Some y)"
          using True yx Some y by (simp add: foldl_snoc_fw firstWatchStep_def Let_def falsy_def lessThanGet_def lessNum_def)
        with True yx y ge show ?thesis by (fastforce split: option.splits)
      qed
    qed
  qed
qed


lemma firstWatch_eligible:
  assumes "\<forall>m \<in> set xs. \<exists>y. getFullYear e (pm_watchDate m) = Some y \<and> y \<noteq> 0"
  shows "getEq (firstWatchDatesOf e xs k) (Some Y) \<longleftrightarrow>
     (truthy k
      \<and> (\<exists>m \<in> set xs. pm_rating_key m = k \<and> getFullYear e (pm_watchDate m) = Some Y)
      \<and> (\<forall>m \<in> set xs. pm_rating_key m = k \<longrightarrow> \<not> lessNum (getFullYear e (pm_watchDate m)) (Some Y)))"
proof (cases "firstWatchDatesOf e xs k")
  case None
  with firstWatchDates_inv[OF assms, of k] show ?thesis
    by (auto simp: getEq_def)
next
  case (Some v)
  with firstWatchDates_inv[OF assms, of k] obtain y where y: "truthy k" "v = Some y"
    "\<exists>m \<in> set xs. pm_rating_key m = k \<and> getFullYear e (pm_watchDate m) = Some y"
    "\<forall>m \<in> set xs. pm_rating_key m = k \<longrightarrow>
        (\<exists>y'. getFullYear e (pm_watchDate m) = Some y' \<and> y \<le> y')" by auto
  show ?thesis
  proof (cases "y = Y")
    case True
    with Some y show ?thesis
      by (auto simp: getEq_def strictEq_def lessNum_def)
  next
    case False
    have "\<not> getEq (firstWatchDatesOf e xs k) (Some Y)"
      using Some y(2) False by (simp add: getEq_def strictEq_def)
    moreover have "\<not> ((\<exists>m \<in> set xs. pm_rating_key m = k \<and> getFullYear e (pm_watchDate m) = Some Y)
      \<and> (\<forall>m \<in> set xs. pm_rating_key m = k \<longrightarrow> \<not> lessNum (getFullYear e (pm_watchDate m)) (Some Y)))"
    proof
      assume a: "(\<exists>m \<in> set xs. pm_rating_key m = k \<and> getFullYear e (pm_watchDate m) = Some Y)
      \<and> (\<forall>m \<in> set xs. pm_rating_key m = k \<longrightarrow> \<not> lessNum (getFullYear e (pm_watchDate m)) (Some Y))"
      then obtain m where m: "m \<in> set xs" "pm_rating_key m = k" "getFullYear e (pm_watchDate m) = Some Y"
        by blast
      with y(4) have "y \<le> Y" by auto
      from y(3) obtain m0 where m0: "m0 \<in> set xs" "pm_rating_key m0 = k"
        "getFullYear e (pm_watchDate m0) = Some y" by blast
      with a have "\<not> y < Y" by (auto simp: lessNum_def)
      with \<open>y \<le> Y\<close> False show False by simp
    qed
    ultimately show ?thesis by blast
  qed
qed

lemma releaseYears_snoc:
  "releaseYearsByRatingKey (xs @ [x]) = releaseYearStep (releaseYearsByRatingKey xs) x"
  by (simp add: releaseYearsByRatingKey_def)

lemma releaseYears_char:
  assumes "distinct (map ps_rating_key xs)"
  shows "releaseYearsByRatingKey xs k = Some y \<longleftrightarrow>
     (truthy k \<and> y \<noteq> 0 \<and> (\<exists>s \<in> set xs. ps_rating_key s = k \<and> ps_releaseYear s = Some y))"
  using assms
proof (induction xs rule: rev_induct)
  case Nil
  show ?case by (simp add: releaseYearsByRatingKey_def)
next
  case (snoc x xs)
  from snoc.prems have d: "distinct (map ps_rating_key xs)"
    and fr: "ps_rating_key x \<notin> ps_rating_key ` set xs" by simp_all
  from fr have fresh: "\<forall>s \<in> set xs. ps_rating_key s \<noteq> ps_rating_key x"
    by (metis imageI)
  note IH = snoc.IH[OF d]
  show ?case
  proof (cases "ps_rating_key x = k")
    case False
    then have "releaseYearsByRatingKey (xs @ [x]) k = releaseYearsByRatingKey xs k"
      by (auto simp: releaseYears_snoc releaseYearStep_def split: option.splits)
    with IH False show ?thesis by auto
  next
    case True
    with fresh IH have none: "releaseYearsByRatingKey xs k \<noteq> Some y" by auto
    show ?thesis
    proof (cases "truthy k \<and> orNull (ps_releaseYear x) \<noteq> None")
      case False
      then have "releaseYearsByRatingKey (xs @ [x]) k = releaseYearsByRatingKey xs k"
        using True by (auto simp: releaseYears_snoc releaseYearStep_def split: option.splits)
      with none False True fresh show ?thesis
        by (auto simp: orNull_def split: option.splits if_splits)
    next
      case t: True
      then obtain yx where yx: "ps_releaseYear x = Some yx" "yx \<noteq> 0"
        by (auto simp: orNull_def split: option.splits if_splits)
      then have "releaseYearsByRatingKey (xs @ [x]) k = Some yx"
        using True t by (simp add: releaseYears_snoc releaseYearStep_def)
      with True t yx fresh show ?thesis by auto
    qed
  qed
qed

text \<open>
  Claim C2 fails as stated. The movie Heat was watched in 2023 and in 2024 and is ranked:
  it is in the top 3 of 2023, not of 2024, although it was watched in 2024. The show
  Severance was watched in 2024 only and is ranked: it is not in the top 3 of 2024, and
  it is in the top 3 of 2022, the year of its release.
\<close>

theorem C2_watched_in_year_counterexample:
  "\<not> isl (fetchMovies exampleEnv [heat2023, heat2024])
   \<and> map pm_rating_key
        (allYearWatches exampleEnv
           (mv_allWatchData (projr (fetchMovies exampleEnv [heat2023, heat2024])))
           (Parsed (Some 2024)))
      = [KNum 1]
   \<and> getTop3ForYear_movies exampleEnv [rankHeat]
        (mv_allWatchData (projr (fetchMovies exampleEnv [heat2023, heat2024])))
        (Parsed (Some 2024))
      = []
   \<and> getTop3ForYear_movies exampleEnv [rankHeat]
        (mv_allWatchData (projr (fetchMovies exampleEnv [heat2023, heat2024])))
        (Parsed (Some 2023))
      = [rankHeat]
   \<and> \<not> isl (fetchShows exampleEnv [severanceEpisode])
   \<and> map ps_year (tv_shows (projr (fetchShows exampleEnv [severanceEpisode]))) = [Some 2024]
   \<and> getTop3ForYear_tv exampleEnv [rankSeverance]
        (tv_shows (projr (fetchShows exampleEnv [severanceEpisode]))) (Parsed (Some 2024))
      = []
   \<and> getTop3ForYear_tv exampleEnv [rankSeverance]
        (tv_shows (projr (fetchShows exampleEnv [severanceEpisode]))) (Parsed (Some 2022))
      = [''Severance'']"
  by code_simp

lemma mapUpdate_preserves:
  assumes "\<forall>kv \<in> set m. g (snd kv) = fst kv" and "\<And>v. g (f v) = g v"
  shows "\<forall>kv \<in> set (mapUpdate m k f). g (snd kv) = fst kv"
  using assms(1)
proof (induction m)
  case Nil
  show ?case by simp
next
  case (Cons a m)
  then show ?case by (cases a) (auto simp: assms(2) split: if_splits)
qed

lemma groupEpisode_keys:
  assumes "distinct (map fst m)" and "\<forall>kv \<in> set m. sh_rating_key (snd kv) = fst kv"
  shows "distinct (map fst (groupEpisode e m ep))
         \<and> (\<forall>kv \<in> set (groupEpisode e m ep). sh_rating_key (snd kv) = fst kv)"
proof (cases "ep_media_type ep = Some ''episode''")
  case False
  with assms show ?thesis by (simp add: groupEpisode_def)
next
  case True
  define k where "k = orElse (ep_grandparent_rating_key ep)
                        (orElse (ep_parent_rating_key ep) (ep_rating_key ep))"
  define m1 where "m1 = (if \<not> mapHas m k
       then m @ [(k, \<lparr> sh_rating_key = k,
                 sh_title = (case orString (ep_grandparent_title ep) (ep_parent_title ep) of
                           None \<Rightarrow> ''Unknown Show''
                         | Some t \<Rightarrow> if t = [] then ''Unknown Show'' else t),
                 sh_episodes = [],
                 sh_firstWatched = toWatchDate e (ep_date ep),
                 sh_lastWatched = toWatchDate e (ep_date ep),
                 sh_totalDuration = 0 \<rparr>)]
       else m)"
  have d1: "distinct (map fst m1)"
    using assms(1) by (auto simp: m1_def mapHas_iff)
  have s1: "\<forall>kv \<in> set m1. sh_rating_key (snd kv) = fst kv"
    using assms(2) by (auto simp: m1_def)
  define f :: "tvshow \<Rightarrow> tvshow" where "f = (\<lambda>show.
             let show1 = show\<lparr> sh_episodes := sh_episodes show @ [ep],
                              sh_totalDuration := sh_totalDuration show + orZero (ep_duration ep) \<rparr>;
                 show2 = (if lessNum (toWatchDate e (ep_date ep)) (sh_firstWatched show1)
                          then show1\<lparr> sh_firstWatched := toWatchDate e (ep_date ep) \<rparr> else show1)
             in (if greaterNum (toWatchDate e (ep_date ep)) (sh_lastWatched show2)
                 then show2\<lparr> sh_lastWatched := toWatchDate e (ep_date ep) \<rparr> else show2))"
  have fk: "sh_rating_key (f v) = sh_rating_key v" for v
    by (simp add: f_def Let_def)
  have g: "groupEpisode e m ep = mapUpdate m1 k f"
    using True unfolding groupEpisode_def Let_def k_def m1_def f_def by simp
  from mapUpdate_preserves[where g = sh_rating_key, OF s1 fk, of k]
  have "\<forall>kv \<in> set (mapUpdate m1 k f). sh_rating_key (snd kv) = fst kv" .
  moreover have "distinct (map fst (mapUpdate m1 k f))"
    using d1 by (simp add: mapUpdate_keys)
  ultimately show ?thesis
    unfolding g by blast
qed

lemma showMapOf_keys:
  "distinct (map fst (showMapOf e showData))
   \<and> (\<forall>kv \<in> set (showMapOf e showData). sh_rating_key (snd kv) = fst kv)"
proof -
  have "distinct (map fst m) \<Longrightarrow> \<forall>kv \<in> set m. sh_rating_key (snd kv) = fst kv \<Longrightarrow>
        distinct (map fst (foldl (groupEpisode e) m eps))
        \<and> (\<forall>kv \<in> set (foldl (groupEpisode e) m eps). sh_rating_key (snd kv) = fst kv)" for m eps
  proof (induction eps arbitrary: m)
    case Nil
    then show ?case by simp
  next
    case (Cons ep eps)
    from groupEpisode_keys[OF Cons.prems, of e ep] Cons.IH[of "groupEpisode e m ep"]
    show ?case by simp
  qed
  from this[of "[]" showData] show ?thesis by (simp add: showMapOf_def)
qed

lemma processedShows_distinct_keys: "distinct (map ps_rating_key (processedShows e showData))"
proof -
  have "map ps_rating_key (processedShows e showData) = map fst (showMapOf e showData)"
    using showMapOf_keys[of e showData]
    by (simp add: processedShows_def processShow_def Let_def)
  with showMapOf_keys[of e showData] show ?thesis by simp
qed

lemma displayShows_distinct_keys:
  assumes "distinct (map ps_rating_key processed)"
  shows "distinct (map ps_rating_key (displayShows processed))"
proof -
  define dd where "dd = deduplicatedShows processed"
  from mergeInv_deduplicatedShows[of processed]
  have "distinct (map normalizedTitle dd)" and sub: "set dd \<subseteq> set processed"
    by (auto simp: mergeInv_def dd_def deduplicatedShows_def)
  then have "distinct dd" by (simp add: distinct_map)
  moreover have "inj_on ps_rating_key (set dd)"
    using assms sub by (auto simp: distinct_map intro: inj_on_subset)
  ultimately have "distinct (map ps_rating_key dd)" by (simp add: distinct_map)
  moreover have "mset (map ps_rating_key (sortBy byWatchDateDesc dd)) = mset (map ps_rating_key dd)"
    by (simp add: mset_sortBy)
  ultimately show ?thesis
    unfolding displayShows_def dd_def[symmetric] by (metis mset_eq_imp_distinct_iff)
qed

text \<open>Both lists of shows that \<open>fetchShows\<close> produces have pairwise different
  identities, as the amended claim C2 asks of the list of shows.\<close>

lemma fetchShows_distinct_keys:
  "case fetchShows e showData of
     Inl err \<Rightarrow> True
   | Inr st \<Rightarrow> distinct (map ps_rating_key (tv_shows st))
              \<and> distinct (map ps_rating_key (tv_cachedProcessed st))"
  by (simp add: fetchShows_def Let_def processedShows_distinct_keys displayShows_distinct_keys)

text \<open>
  Claim C2, amended. For movies whose watch events all have a valid year other than 0,
  a ranked title passes the filter of a year exactly when its identity is truthy, it
  was watched in that year, and no watch of it lies in an earlier year: the year is the
  year of its first watch. For TV shows (a list with pairwise different identities), a
  ranked show passes exactly when its identity is truthy and the year is the release
  year of the show of that identity; when the show was watched plays no part.
\<close>

theorem C2_top3_eligibility:
  assumes "\<forall>m \<in> set allWatchData. \<exists>y. getFullYear e (pm_watchDate m) = Some y \<and> y \<noteq> 0"
    and "distinct (map ps_rating_key tvShows)"
    and "targetYear e t = Some Y"
  shows "getTop3ForYear_movies e movieRankings allWatchData t
           = take 3 (filter (\<lambda>r. truthy (r_rating_key r)
                \<and> (\<exists>m \<in> set allWatchData. pm_rating_key m = r_rating_key r
                       \<and> getFullYear e (pm_watchDate m) = Some Y)
                \<and> (\<forall>m \<in> set allWatchData. pm_rating_key m = r_rating_key r
                       \<longrightarrow> \<not> lessNum (getFullYear e (pm_watchDate m)) (Some Y)))
              movieRankings)
         \<and> getTop3ForYear_tv e tvRankings tvShows t
           = map r_title (take 3 (filter (\<lambda>r. truthy (r_rating_key r) \<and> Y \<noteq> 0
                \<and> (\<exists>s \<in> set tvShows. ps_rating_key s = r_rating_key r
                       \<and> ps_releaseYear s = Some Y))
              tvRankings))"
proof -
  have tv: "strictEq (releaseYearsByRatingKey tvShows k) (Some Y) \<longleftrightarrow>
      (truthy k \<and> Y \<noteq> 0 \<and> (\<exists>s \<in> set tvShows. ps_rating_key s = k \<and> ps_releaseYear s = Some Y))" for k
    using releaseYears_char[OF assms(2), of k Y]
    by (cases "releaseYearsByRatingKey tvShows k")
       (auto simp: strictEq_def dest: releaseYears_char[OF assms(2), THEN iffD1])
  show ?thesis
    unfolding getTop3ForYear_movies_def getTop3ForYear_tv_def assms(3)
    by (simp only: firstWatch_eligible[OF assms(1)] tv)
qed

theorem C2_top3_eligibility_witness:
  "map (\<lambda>m. getFullYear exampleEnv (pm_watchDate m))
       (map (processMovie exampleEnv) [heat2023, heat2024]) = [Some 2023, Some 2024]
   \<and> distinct (map ps_rating_key (processedShows exampleEnv [severanceEpisode]))
   \<and> targetYear exampleEnv (Parsed (Some 2023)) = Some 2023
   \<and> getTop3ForYear_movies exampleEnv [rankHeat]
        (map (processMovie exampleEnv) [heat2023, heat2024]) (Parsed (Some 2023)) = [rankHeat]
   \<and> getTop3ForYear_tv exampleEnv [rankSeverance]
        (processedShows exampleEnv [severanceEpisode]) (Parsed (Some 2023)) = []"
proof -
  have years: "map (\<lambda>m. getFullYear exampleEnv (pm_watchDate m))
       (map (processMovie exampleEnv) [heat2023, heat2024]) = [Some 2023, Some 2024]"
    by (simp add: processMovie_def heat2023_def heat2024_def exampleEnv_def getFullYear_def
        newDate_def Let_def)
  then have h1: "\<forall>m \<in> set (map (processMovie exampleEnv) [heat2023, heat2024]).
      \<exists>y. getFullYear exampleEnv (pm_watchDate m) = Some y \<and> y \<noteq> 0"
    by simp
  have h2: "distinct (map ps_rating_key (processedShows exampleEnv [severanceEpisode]))"
    by (rule processedShows_distinct_keys)
  have h3: "targetYear exampleEnv (Parsed (Some 2023)) = Some 2023"
    by (simp add: targetYear_def)
  have shows1: "map (\<lambda>s. (ps_rating_key s, ps_releaseYear s))
      (processedShows exampleEnv [severanceEpisode]) = [(KNum 10, Some 2022)]"
    by code_simp
  have keys: "map pm_rating_key (map (processMovie exampleEnv) [heat2023, heat2024]) = [KNum 1, KNum 1]"
    by (simp add: processMovie_def heat2023_def heat2024_def Let_def)
  from C2_top3_eligibility[OF h1 h2 h3, of "[rankHeat]" "[rankSeverance]"]
  have m: "getTop3ForYear_movies exampleEnv [rankHeat]
        (map (processMovie exampleEnv) [heat2023, heat2024]) (Parsed (Some 2023)) = [rankHeat]"
    and tv: "getTop3ForYear_tv exampleEnv [rankSeverance]
        (processedShows exampleEnv [severanceEpisode]) (Parsed (Some 2023)) = []"
  proof -
    assume a: "getTop3ForYear_movies exampleEnv [rankHeat]
        (map (processMovie exampleEnv) [heat2023, heat2024]) (Parsed (Some 2023)) =
      take 3 (filter (\<lambda>r. truthy (r_rating_key r)
                \<and> (\<exists>m \<in> set (map (processMovie exampleEnv) [heat2023, heat2024]).
                       pm_rating_key m = r_rating_key r
                       \<and> getFullYear exampleEnv (pm_watchDate m) = Some 2023)
                \<and> (\<forall>m \<in> set (map (processMovie exampleEnv) [heat2023, heat2024]).
                       pm_rating_key m = r_rating_key r
                       \<longrightarrow> \<not> lessNum (getFullYear exampleEnv (pm_watchDate m)) (Some 2023)))
              [rankHeat])
      \<and> getTop3ForYear_tv exampleEnv [rankSeverance]
        (processedShows exampleEnv [severanceEpisode]) (Parsed (Some 2023)) =
      map r_title (take 3 (filter (\<lambda>r. truthy (r_rating_key r) \<and> (2023::int) \<noteq> 0
                \<and> (\<exists>s \<in> set (processedShows exampleEnv [severanceEpisode]).
                       ps_rating_key s = r_rating_key r \<and> ps_releaseYear s = Some 2023))
              [rankSeverance]))"
    have y1: "getFullYear exampleEnv (pm_watchDate (processMovie exampleEnv heat2023)) = Some 2023"
      and y2: "getFullYear exampleEnv (pm_watchDate (processMovie exampleEnv heat2024)) = Some 2024"
      using years by simp_all
    have k1: "pm_rating_key (processMovie exampleEnv heat2023) = KNum 1"
      and k2: "pm_rating_key (processMovie exampleEnv heat2024) = KNum 1"
      using keys by simp_all
    show "getTop3ForYear_movies exampleEnv [rankHeat]
        (map (processMovie exampleEnv) [heat2023, heat2024]) (Parsed (Some 2023)) = [rankHeat]"
      using a by (simp add: y1 y2 k1 k2 rankHeat_def lessNum_def)
    have "\<forall>s \<in> set (processedShows exampleEnv [severanceEpisode]). ps_releaseYear s = Some 2022"
      using shows1 by (cases "processedShows exampleEnv [severanceEpisode]") auto
    then show "getTop3ForYear_tv exampleEnv [rankSeverance]
        (processedShows exampleEnv [severanceEpisode]) (Parsed (Some 2023)) = []"
      using a by simp
  qed
  from years h2 h3 m tv show ?thesis by blast
qed


lemma readYears_inv:
  assumes "\<forall>c \<in> set xs. comicReadYear e c \<noteq> Some None \<and> comicReadYear e c \<noteq> Some (Some 0)"
  shows "case foldl (readYearStep e) Map.empty xs k of
           None \<Rightarrow> \<not> truthy k
                     \<or> (\<forall>c \<in> set xs. orElse (c_seriesId c) (c_rating_key c) = k
                            \<longrightarrow> comicReadYear e c = None)
         | Some v \<Rightarrow> truthy k \<and> (\<exists>y. v = Some y \<and> y \<noteq> 0
               \<and> (\<exists>c \<in> set xs. orElse (c_seriesId c) (c_rating_key c) = k
                      \<and> comicReadYear e c = Some (Some y))
               \<and> (\<forall>c \<in> set xs. orElse (c_seriesId c) (c_rating_key c) = k
                      \<longrightarrow> (\<forall>y'. comicReadYear e c = Some (Some y') \<longrightarrow> y' \<le> y)))"
  using assms
proof (induction xs rule: rev_induct)
  case Nil
  show ?case by simp
next
  case (snoc x xs)
  define m where "m = foldl (readYearStep e) Map.empty xs"
  have step: "foldl (readYearStep e) Map.empty (xs @ [x]) = readYearStep e m x"
    by (simp add: m_def)
  from snoc have IH: "case m k of
           None \<Rightarrow> \<not> truthy k
                     \<or> (\<forall>c \<in> set xs. orElse (c_seriesId c) (c_rating_key c) = k
                            \<longrightarrow> comicReadYear e c = None)
         | Some v \<Rightarrow> truthy k \<and> (\<exists>y. v = Some y \<and> y \<noteq> 0
               \<and> (\<exists>c \<in> set xs. orElse (c_seriesId c) (c_rating_key c) = k
                      \<and> comicReadYear e c = Some (Some y))
               \<and> (\<forall>c \<in> set xs. orElse (c_seriesId c) (c_rating_key c) = k
                      \<longrightarrow> (\<forall>y'. comicReadYear e c = Some (Some y') \<longrightarrow> y' \<le> y)))"
    by (simp add: m_def)
  from snoc.prems have rx: "comicReadYear e x \<noteq> Some None" "comicReadYear e x \<noteq> Some (Some 0)"
    by simp_all
  show ?case
  proof (cases "orElse (c_seriesId x) (c_rating_key x) = k \<and> truthy k \<and> comicReadYear e x \<noteq> None")
    case False
    then have "readYearStep e m x k = m k"
      by (auto simp: readYearStep_def Let_def split: option.splits)
    with IH False show ?thesis
      unfolding step by (auto split: option.splits)
  next
    case True
    with rx obtain yx where yx: "comicReadYear e x = Some (Some yx)" "yx \<noteq> 0"
      by (cases "comicReadYear e x") auto
    show ?thesis
    proof (cases "m k")
      case None
      then have "readYearStep e m x k = Some (Some yx)"
        using True yx by (simp add: readYearStep_def Let_def falsy_def)
      with IH None True yx show ?thesis
        unfolding step by (auto split: option.splits)
    next
      case (Some v)
      with IH obtain y where y: "v = Some y" "y \<noteq> 0"
        "\<exists>c \<in> set xs. orElse (c_seriesId c) (c_rating_key c) = k
              \<and> comicReadYear e c = Some (Some y)"
        "\<forall>c \<in> set xs. orElse (c_seriesId c) (c_rating_key c) = k
              \<longrightarrow> (\<forall>y'. comicReadYear e c = Some (Some y') \<longrightarrow> y' \<le> y)" by auto
      show ?thesis
      proof (cases "y < yx")
        case lt: True
        then have "readYearStep e m x k = Some (Some yx)"
          using True yx Some y
          by (simp add: readYearStep_def Let_def falsy_def greaterNum_def lessNum_def)
        with True yx y lt show ?thesis
          unfolding step by (fastforce split: option.splits)
      next
        case ge: False
        then have "readYearStep e m x k = Some (Some y)"
          using True yx Some y
          by (simp add: readYearStep_def Let_def falsy_def greaterNum_def lessNum_def)
        with True yx y ge show ?thesis
          unfolding step by (fastforce split: option.splits)
      qed
    qed
  qed
qed

lemma readYear_eligible:
  assumes "\<forall>c \<in> set xs. comicReadYear e c \<noteq> Some None \<and> comicReadYear e c \<noteq> Some (Some 0)"
  shows "(truthy k \<and> getEq (foldl (readYearStep e) Map.empty xs k) (Some Y)) \<longleftrightarrow>
     (truthy k
      \<and> (\<exists>c \<in> set xs. orElse (c_seriesId c) (c_rating_key c) = k
             \<and> comicReadYear e c = Some (Some Y))
      \<and> (\<forall>c \<in> set xs. orElse (c_seriesId c) (c_rating_key c) = k
             \<longrightarrow> (\<forall>y'. comicReadYear e c = Some (Some y') \<longrightarrow> y' \<le> Y)))"
proof (cases "foldl (readYearStep e) Map.empty xs k")
  case None
  with readYears_inv[OF assms, of k] show ?thesis
    by (auto simp: getEq_def)
next
  case (Some v)
  with readYears_inv[OF assms, of k] obtain y where y: "truthy k" "v = Some y"
    "\<exists>c \<in> set xs. orElse (c_seriesId c) (c_rating_key c) = k
          \<and> comicReadYear e c = Some (Some y)"
    "\<forall>c \<in> set xs. orElse (c_seriesId c) (c_rating_key c) = k
          \<longrightarrow> (\<forall>y'. comicReadYear e c = Some (Some y') \<longrightarrow> y' \<le> y)" by auto
  show ?thesis
  proof (cases "y = Y")
    case True
    with Some y show ?thesis
      by (auto simp: getEq_def strictEq_def)
  next
    case False
    have "\<not> getEq (foldl (readYearStep e) Map.empty xs k) (Some Y)"
      using Some y(2) False by (simp add: getEq_def strictEq_def)
    moreover have "\<not> ((\<exists>c \<in> set xs. orElse (c_seriesId c) (c_rating_key c) = k
             \<and> comicReadYear e c = Some (Some Y))
      \<and> (\<forall>c \<in> set xs. orElse (c_seriesId c) (c_rating_key c) = k
             \<longrightarrow> (\<forall>y'. comicReadYear e c = Some (Some y') \<longrightarrow> y' \<le> Y)))"
    proof
      assume a: "(\<exists>c \<in> set xs. orElse (c_seriesId c) (c_rating_key c) = k
             \<and> comicReadYear e c = Some (Some Y))
      \<and> (\<forall>c \<in> set xs. orElse (c_seriesId c) (c_rating_key c) = k
             \<longrightarrow> (\<forall>y'. comicReadYear e c = Some (Some y') \<longrightarrow> y' \<le> Y))"
      with y(4) have "Y \<le> y" by blast
      moreover from a y(3) have "y \<le> Y" by blast
      ultimately show False using False by simp
    qed
    ultimately show ?thesis by blast
  qed
qed

lemma eligibleSeries_char:
  "k \<in> foldl (eligibleStep e target) S xs \<longleftrightarrow>
     (k \<in> S \<or> (truthy k \<and> (\<exists>c \<in> set xs. orElse (c_seriesId c) (c_rating_key c) = k
         \<and> getEq (issueReadYear e c) target \<and> strictEq (c_issueReleaseYear c) target)))"
proof (induction xs arbitrary: S)
  case Nil
  show ?case by simp
next
  case (Cons x xs)
  have s: "strictEq a b \<Longrightarrow> a \<noteq> None" for a b :: "int option"
    by (auto simp: strictEq_def split: option.splits)
  show ?case
    unfolding foldl_Cons Cons.IH
    by (auto simp: eligibleStep_def Let_def dest: s)
qed


text \<open>
  Claim C1. For every content type (movies, TV shows, and both versions of the comics
  view) and every year tab, there is a test on identities, fixed by the data and the
  year and the same for every ranking list, such that the top 3 of the year is the
  ranking list filtered by that test and cut to its first three entries. So it is a
  subsequence of the ranking list (the same entries in the same relative order, nothing
  sorted) of length at most 3; the TV view returns the titles of these entries. The test
  is the eligibility rule of the content type: for movies the year is the year of the
  first watch, for TV shows the release year, for comics (ComicBooksView.jsx) the most
  recent year the series was read in, and in the other comics view some issue of the
  series was read and released in the year. The first three rules are stated for data
  whose years are valid and not 0 and shows of pairwise different identities.
\<close>

theorem C1_top3_is_filtered_prefix:
  "(\<exists>E. \<forall>rs. getTop3ForYear_movies e rs allWatchData t
             = take 3 (filter (\<lambda>r. E (r_rating_key r)) rs))
   \<and> (\<exists>E. \<forall>rs. getTop3ForYear_tv e rs tvShows t
             = map r_title (take 3 (filter (\<lambda>r. E (r_rating_key r)) rs)))
   \<and> (\<exists>E. \<forall>rs. getTop3ForYear_comics e rs comics allReadData t
             = take 3 (filter (\<lambda>r. E (r_rating_key r)) rs))
   \<and> (\<exists>E. \<forall>rs. getTop3ForYear_comicIssues e rs allReadData t
             = take 3 (filter (\<lambda>r. E (r_rating_key r)) rs))
   \<and> subseq (getTop3ForYear_movies e rankings allWatchData t) rankings
   \<and> length (getTop3ForYear_movies e rankings allWatchData t) \<le> 3
   \<and> subseq (getTop3ForYear_tv e rankings tvShows t) (map r_title rankings)
   \<and> length (getTop3ForYear_tv e rankings tvShows t) \<le> 3
   \<and> subseq (getTop3ForYear_comics e rankings comics allReadData t) rankings
   \<and> length (getTop3ForYear_comics e rankings comics allReadData t) \<le> 3
   \<and> subseq (getTop3ForYear_comicIssues e rankings allReadData t) rankings
   \<and> length (getTop3ForYear_comicIssues e rankings allReadData t) \<le> 3
   \<and> (targetYear e t = Some Y
        \<and> (\<forall>m \<in> set allWatchData. \<exists>y. getFullYear e (pm_watchDate m) = Some y \<and> y \<noteq> 0)
      \<longrightarrow> getTop3ForYear_movies e rankings allWatchData t
           = take 3 (filter (\<lambda>r. truthy (r_rating_key r)
                \<and> (\<exists>m \<in> set allWatchData. pm_rating_key m = r_rating_key r
                       \<and> getFullYear e (pm_watchDate m) = Some Y)
                \<and> (\<forall>m \<in> set allWatchData. pm_rating_key m = r_rating_key r
                       \<longrightarrow> \<not> lessNum (getFullYear e (pm_watchDate m)) (Some Y)))
              rankings))
   \<and> (targetYear e t = Some Y \<and> distinct (map ps_rating_key tvShows)
      \<longrightarrow> getTop3ForYear_tv e rankings tvShows t
           = map r_title (take 3 (filter (\<lambda>r. truthy (r_rating_key r) \<and> Y \<noteq> 0
                \<and> (\<exists>s \<in> set tvShows. ps_rating_key s = r_rating_key r
                       \<and> ps_releaseYear s = Some Y))
              rankings)))
   \<and> (targetYear e t = Some Y
        \<and> (\<forall>c \<in> set (allReadData @ comics).
              comicReadYear e c \<noteq> Some None \<and> comicReadYear e c \<noteq> Some (Some 0))
      \<longrightarrow> getTop3ForYear_comics e rankings comics allReadData t
           = take 3 (filter (\<lambda>r. truthy (r_rating_key r)
                \<and> (\<exists>c \<in> set (allReadData @ comics).
                       orElse (c_seriesId c) (c_rating_key c) = r_rating_key r
                       \<and> comicReadYear e c = Some (Some Y))
                \<and> (\<forall>c \<in> set (allReadData @ comics).
                       orElse (c_seriesId c) (c_rating_key c) = r_rating_key r
                       \<longrightarrow> (\<forall>y'. comicReadYear e c = Some (Some y') \<longrightarrow> y' \<le> Y)))
              rankings))
   \<and> getTop3ForYear_comicIssues e rankings allReadData t
       = take 3 (filter (\<lambda>r. truthy (r_rating_key r)
            \<and> (\<exists>c \<in> set allReadData.
                   orElse (c_seriesId c) (c_rating_key c) = r_rating_key r
                   \<and> getEq (issueReadYear e c) (targetYear e t)
                   \<and> strictEq (c_issueReleaseYear c) (targetYear e t)))
          rankings)"
proof -
  have m: "\<exists>E. \<forall>rs. getTop3ForYear_movies e rs allWatchData t
             = take 3 (filter (\<lambda>r. E (r_rating_key r)) rs)"
    unfolding getTop3ForYear_movies_def
    by (rule exI[of _ "\<lambda>k. getEq (firstWatchDatesOf e allWatchData k) (targetYear e t)"]) simp
  have tv: "\<exists>E. \<forall>rs. getTop3ForYear_tv e rs tvShows t
             = map r_title (take 3 (filter (\<lambda>r. E (r_rating_key r)) rs))"
    unfolding getTop3ForYear_tv_def
    by (rule exI[of _ "\<lambda>k. strictEq (releaseYearsByRatingKey tvShows k) (targetYear e t)"]) simp
  have c: "\<exists>E. \<forall>rs. getTop3ForYear_comics e rs comics allReadData t
             = take 3 (filter (\<lambda>r. E (r_rating_key r)) rs)"
    unfolding getTop3ForYear_comics_def Let_def
    by (rule exI[of _ "\<lambda>k. truthy k \<and> getEq (foldl (readYearStep e)
          (foldl (readYearStep e) Map.empty allReadData) comics k) (targetYear e t)"]) simp
  have ci: "\<exists>E. \<forall>rs. getTop3ForYear_comicIssues e rs allReadData t
             = take 3 (filter (\<lambda>r. E (r_rating_key r)) rs)"
    unfolding getTop3ForYear_comicIssues_def Let_def
    by (rule exI[of _ "\<lambda>k. truthy k
          \<and> k \<in> foldl (eligibleStep e (targetYear e t)) {} allReadData"]) simp
  from m obtain E1 where p1: "getTop3ForYear_movies e rankings allWatchData t
    = take 3 (filter (\<lambda>r. E1 (r_rating_key r)) rankings)" by blast
  from tv obtain E2 where p2: "getTop3ForYear_tv e rankings tvShows t
    = map r_title (take 3 (filter (\<lambda>r. E2 (r_rating_key r)) rankings))" by blast
  from c obtain E3 where p3: "getTop3ForYear_comics e rankings comics allReadData t
    = take 3 (filter (\<lambda>r. E3 (r_rating_key r)) rankings)" by blast
  from ci obtain E4 where p4: "getTop3ForYear_comicIssues e rankings allReadData t
    = take 3 (filter (\<lambda>r. E4 (r_rating_key r)) rankings)" by blast
  have s1: "subseq (getTop3ForYear_movies e rankings allWatchData t) rankings"
    and l1: "length (getTop3ForYear_movies e rankings allWatchData t) \<le> 3"
    unfolding p1 using top3_shape[of "\<lambda>r. E1 (r_rating_key r)" rankings] by simp_all
  have s2: "subseq (getTop3ForYear_tv e rankings tvShows t) (map r_title rankings)"
    unfolding p2 using top3_shape[of "\<lambda>r. E2 (r_rating_key r)" rankings] by (simp add: subseq_map)
  have l2: "length (getTop3ForYear_tv e rankings tvShows t) \<le> 3"
    unfolding p2 by simp
  have s3: "subseq (getTop3ForYear_comics e rankings comics allReadData t) rankings"
    and l3: "length (getTop3ForYear_comics e rankings comics allReadData t) \<le> 3"
    unfolding p3 using top3_shape[of "\<lambda>r. E3 (r_rating_key r)" rankings] by simp_all
  have s4: "subseq (getTop3ForYear_comicIssues e rankings allReadData t) rankings"
    and l4: "length (getTop3ForYear_comicIssues e rankings allReadData t) \<le> 3"
    unfolding p4 using top3_shape[of "\<lambda>r. E4 (r_rating_key r)" rankings] by simp_all
  have xm: "targetYear e t = Some Y
        \<and> (\<forall>m \<in> set allWatchData. \<exists>y. getFullYear e (pm_watchDate m) = Some y \<and> y \<noteq> 0)
      \<longrightarrow> getTop3ForYear_movies e rankings allWatchData t
           = take 3 (filter (\<lambda>r. truthy (r_rating_key r)
                \<and> (\<exists>m \<in> set allWatchData. pm_rating_key m = r_rating_key r
                       \<and> getFullYear e (pm_watchDate m) = Some Y)
                \<and> (\<forall>m \<in> set allWatchData. pm_rating_key m = r_rating_key r
                       \<longrightarrow> \<not> lessNum (getFullYear e (pm_watchDate m)) (Some Y)))
              rankings)"
  proof
    assume a: "targetYear e t = Some Y
        \<and> (\<forall>m \<in> set allWatchData. \<exists>y. getFullYear e (pm_watchDate m) = Some y \<and> y \<noteq> 0)"
    then have ty: "targetYear e t = Some Y"
      and h: "\<forall>m \<in> set allWatchData. \<exists>y. getFullYear e (pm_watchDate m) = Some y \<and> y \<noteq> 0"
      by simp_all
    show "getTop3ForYear_movies e rankings allWatchData t
           = take 3 (filter (\<lambda>r. truthy (r_rating_key r)
                \<and> (\<exists>m \<in> set allWatchData. pm_rating_key m = r_rating_key r
                       \<and> getFullYear e (pm_watchDate m) = Some Y)
                \<and> (\<forall>m \<in> set allWatchData. pm_rating_key m = r_rating_key r
                       \<longrightarrow> \<not> lessNum (getFullYear e (pm_watchDate m)) (Some Y)))
              rankings)"
      unfolding getTop3ForYear_movies_def ty
      by (simp only: firstWatch_eligible[OF h])
  qed
  have xt: "targetYear e t = Some Y \<and> distinct (map ps_rating_key tvShows)
      \<longrightarrow> getTop3ForYear_tv e rankings tvShows t
           = map r_title (take 3 (filter (\<lambda>r. truthy (r_rating_key r) \<and> Y \<noteq> 0
                \<and> (\<exists>s \<in> set tvShows. ps_rating_key s = r_rating_key r
                       \<and> ps_releaseYear s = Some Y))
              rankings))"
  proof
    assume a: "targetYear e t = Some Y \<and> distinct (map ps_rating_key tvShows)"
    then have ty: "targetYear e t = Some Y" and d: "distinct (map ps_rating_key tvShows)"
      by simp_all
    have q: "strictEq (releaseYearsByRatingKey tvShows k) (Some Y) \<longleftrightarrow>
      (truthy k \<and> Y \<noteq> 0 \<and> (\<exists>s \<in> set tvShows. ps_rating_key s = k \<and> ps_releaseYear s = Some Y))" for k
      using releaseYears_char[OF d, of k Y]
      by (cases "releaseYearsByRatingKey tvShows k")
         (auto simp: strictEq_def dest: releaseYears_char[OF d, THEN iffD1])
    show "getTop3ForYear_tv e rankings tvShows t
           = map r_title (take 3 (filter (\<lambda>r. truthy (r_rating_key r) \<and> Y \<noteq> 0
                \<and> (\<exists>s \<in> set tvShows. ps_rating_key s = r_rating_key r
                       \<and> ps_releaseYear s = Some Y))
              rankings))"
      unfolding getTop3ForYear_tv_def ty by (simp only: q)
  qed
  have xc: "targetYear e t = Some Y
        \<and> (\<forall>c \<in> set (allReadData @ comics).
              comicReadYear e c \<noteq> Some None \<and> comicReadYear e c \<noteq> Some (Some 0))
      \<longrightarrow> getTop3ForYear_comics e rankings comics allReadData t
           = take 3 (filter (\<lambda>r. truthy (r_rating_key r)
                \<and> (\<exists>c \<in> set (allReadData @ comics).
                       orElse (c_seriesId c) (c_rating_key c) = r_rating_key r
                       \<and> comicReadYear e c = Some (Some Y))
                \<and> (\<forall>c \<in> set (allReadData @ comics).
                       orElse (c_seriesId c) (c_rating_key c) = r_rating_key r
                       \<longrightarrow> (\<forall>y'. comicReadYear e c = Some (Some y') \<longrightarrow> y' \<le> Y)))
              rankings)"
  proof
    assume a: "targetYear e t = Some Y
        \<and> (\<forall>c \<in> set (allReadData @ comics).
              comicReadYear e c \<noteq> Some None \<and> comicReadYear e c \<noteq> Some (Some 0))"
    then have ty: "targetYear e t = Some Y"
      and h: "\<forall>c \<in> set (allReadData @ comics).
              comicReadYear e c \<noteq> Some None \<and> comicReadYear e c \<noteq> Some (Some 0)"
      by simp_all
    have f: "foldl (readYearStep e) (foldl (readYearStep e) Map.empty allReadData) comics
        = foldl (readYearStep e) Map.empty (allReadData @ comics)"
      by simp
    show "getTop3ForYear_comics e rankings comics allReadData t
           = take 3 (filter (\<lambda>r. truthy (r_rating_key r)
                \<and> (\<exists>c \<in> set (allReadData @ comics).
                       orElse (c_seriesId c) (c_rating_key c) = r_rating_key r
                       \<and> comicReadYear e c = Some (Some Y))
                \<and> (\<forall>c \<in> set (allReadData @ comics).
                       orElse (c_seriesId c) (c_rating_key c) = r_rating_key r
                       \<longrightarrow> (\<forall>y'. comicReadYear e c = Some (Some y') \<longrightarrow> y' \<le> Y)))
              rankings)"
      unfolding getTop3ForYear_comics_def Let_def ty f
      by (simp only: readYear_eligible[OF h])
  qed
  have xi: "getTop3ForYear_comicIssues e rankings allReadData t
       = take 3 (filter (\<lambda>r. truthy (r_rating_key r)
            \<and> (\<exists>c \<in> set allReadData.
                   orElse (c_seriesId c) (c_rating_key c) = r_rating_key r
                   \<and> getEq (issueReadYear e c) (targetYear e t)
                   \<and> strictEq (c_issueReleaseYear c) (targetYear e t)))
          rankings)"
    unfolding getTop3ForYear_comicIssues_def Let_def
    by (simp add: eligibleSeries_char cong: conj_cong)
  from m tv c ci s1 l1 s2 l2 s3 l3 s4 l4 xm xt xc xi show ?thesis
    by (intro conjI)
qed


theorem C1_top3_is_filtered_prefix_witness:
  "targetYear exampleEnv (Parsed (Some 2023)) = Some 2023
   \<and> map (\<lambda>m. getFullYear exampleEnv (pm_watchDate m))
        (map (processMovie exampleEnv) [heat2023, heat2024]) = [Some 2023, Some 2024]
   \<and> distinct (map ps_rating_key (processedShows exampleEnv [severanceEpisode]))
   \<and> comicReadYear exampleEnv sagaIssue = Some (Some 2023)
   \<and> getTop3ForYear_movies exampleEnv [rankHeat, rankSeverance, rankSaga]
        (map (processMovie exampleEnv) [heat2023, heat2024]) (Parsed (Some 2023)) = [rankHeat]
   \<and> getTop3ForYear_tv exampleEnv [rankHeat, rankSeverance, rankSaga]
        (processedShows exampleEnv [severanceEpisode]) (Parsed (Some 2023)) = []
   \<and> getTop3ForYear_comics exampleEnv [rankHeat, rankSeverance, rankSaga]
        [sagaIssue] [sagaIssue] (Parsed (Some 2023)) = [rankSaga]
   \<and> getTop3ForYear_comicIssues exampleEnv [rankHeat, rankSeverance, rankSaga]
        [sagaIssue] (Parsed (Some 2023)) = [rankSaga]"
proof -
  define awd where "awd = map (processMovie exampleEnv) [heat2023, heat2024]"
  define tvs where "tvs = processedShows exampleEnv [severanceEpisode]"
  define rks where "rks = [rankHeat, rankSeverance, rankSaga]"
  have ty: "targetYear exampleEnv (Parsed (Some 2023)) = Some 2023"
    by (simp add: targetYear_def)
  have years: "map (\<lambda>m. getFullYear exampleEnv (pm_watchDate m)) awd = [Some 2023, Some 2024]"
    by (simp add: awd_def processMovie_def heat2023_def heat2024_def exampleEnv_def
        getFullYear_def newDate_def Let_def)
  have keys: "map pm_rating_key awd = [KNum 1, KNum 1]"
    by (simp add: awd_def processMovie_def heat2023_def heat2024_def Let_def)
  have h1: "\<forall>m \<in> set awd. \<exists>y. getFullYear exampleEnv (pm_watchDate m) = Some y \<and> y \<noteq> 0"
    using years by (simp add: awd_def)
  have h2: "distinct (map ps_rating_key tvs)"
    unfolding tvs_def by (rule processedShows_distinct_keys)
  have ry: "comicReadYear exampleEnv sagaIssue = Some (Some 2023)"
    by (simp add: comicReadYear_def sagaIssue_def getFullYear_def exampleEnv_def)
  have h3: "\<forall>c \<in> set ([sagaIssue] @ [sagaIssue]).
      comicReadYear exampleEnv c \<noteq> Some None \<and> comicReadYear exampleEnv c \<noteq> Some (Some 0)"
    by (simp add: ry)
  have ck: "orElse (c_seriesId sagaIssue) (c_rating_key sagaIssue) = KStr ''saga''"
    by (simp add: orElse_def sagaIssue_def)
  have iy: "issueReadYear exampleEnv sagaIssue = Some (Some 2023)"
    by (simp add: issueReadYear_def orNull_def sagaIssue_def comicReadYear_def getFullYear_def
        exampleEnv_def)
  have ir: "c_issueReleaseYear sagaIssue = Some 2023"
    by (simp add: sagaIssue_def)
  have rk: "r_rating_key rankHeat = KNum 1" "r_rating_key rankSeverance = KNum 10"
    "r_rating_key rankSaga = KStr ''saga''"
    by (simp_all add: rankHeat_def rankSeverance_def rankSaga_def)
  have shows1: "map (\<lambda>s. (ps_rating_key s, ps_releaseYear s)) tvs = [(KNum 10, Some 2022)]"
    unfolding tvs_def by code_simp
  then have rel: "\<forall>s \<in> set tvs. ps_releaseYear s = Some 2022"
    by (cases tvs) auto
  note T = C1_top3_is_filtered_prefix[where e = exampleEnv and allWatchData = awd
      and t = "Parsed (Some 2023)" and tvShows = tvs and comics = "[sagaIssue]"
      and allReadData = "[sagaIssue]" and rankings = rks and Y = 2023]
  have y1: "getFullYear exampleEnv (pm_watchDate (processMovie exampleEnv heat2023)) = Some 2023"
    and y2: "getFullYear exampleEnv (pm_watchDate (processMovie exampleEnv heat2024)) = Some 2024"
    using years by (simp_all add: awd_def)
  have k1: "pm_rating_key (processMovie exampleEnv heat2023) = KNum 1"
    and k2: "pm_rating_key (processMovie exampleEnv heat2024) = KNum 1"
    using keys by (simp_all add: awd_def)
  from T ty h1 have "getTop3ForYear_movies exampleEnv rks awd (Parsed (Some 2023))
      = take 3 (filter (\<lambda>r. truthy (r_rating_key r)
                \<and> (\<exists>m \<in> set awd. pm_rating_key m = r_rating_key r
                       \<and> getFullYear exampleEnv (pm_watchDate m) = Some 2023)
                \<and> (\<forall>m \<in> set awd. pm_rating_key m = r_rating_key r
                       \<longrightarrow> \<not> lessNum (getFullYear exampleEnv (pm_watchDate m)) (Some 2023)))
              rks)"
    by blast
  then have em: "getTop3ForYear_movies exampleEnv rks awd (Parsed (Some 2023)) = [rankHeat]"
    by (simp add: rks_def awd_def rk y1 y2 k1 k2 lessNum_def)
  from T ty h2 have "getTop3ForYear_tv exampleEnv rks tvs (Parsed (Some 2023))
      = map r_title (take 3 (filter (\<lambda>r. truthy (r_rating_key r) \<and> (2023::int) \<noteq> 0
                \<and> (\<exists>s \<in> set tvs. ps_rating_key s = r_rating_key r
                       \<and> ps_releaseYear s = Some 2023))
              rks))"
    by blast
  then have et: "getTop3ForYear_tv exampleEnv rks tvs (Parsed (Some 2023)) = []"
    using rel by (simp add: rks_def)
  from T ty h3 have "getTop3ForYear_comics exampleEnv rks [sagaIssue] [sagaIssue] (Parsed (Some 2023))
      = take 3 (filter (\<lambda>r. truthy (r_rating_key r)
                \<and> (\<exists>c \<in> set ([sagaIssue] @ [sagaIssue]).
                       orElse (c_seriesId c) (c_rating_key c) = r_rating_key r
                       \<and> comicReadYear exampleEnv c = Some (Some 2023))
                \<and> (\<forall>c \<in> set ([sagaIssue] @ [sagaIssue]).
                       orElse (c_seriesId c) (c_rating_key c) = r_rating_key r
                       \<longrightarrow> (\<forall>y'. comicReadYear exampleEnv c = Some (Some y') \<longrightarrow> y' \<le> 2023)))
              rks)"
    by blast
  then have ec: "getTop3ForYear_comics exampleEnv rks [sagaIssue] [sagaIssue] (Parsed (Some 2023))
      = [rankSaga]"
    by (simp add: rks_def rk ck ry)
  from T have "getTop3ForYear_comicIssues exampleEnv rks [sagaIssue] (Parsed (Some 2023))
       = take 3 (filter (\<lambda>r. truthy (r_rating_key r)
            \<and> (\<exists>c \<in> set [sagaIssue].
                   orElse (c_seriesId c) (c_rating_key c) = r_rating_key r
                   \<and> getEq (issueReadYear exampleEnv c) (targetYear exampleEnv (Parsed (Some 2023)))
                   \<and> strictEq (c_issueReleaseYear c) (targetYear exampleEnv (Parsed (Some 2023)))))
          rks)"
    by blast
  then have ei: "getTop3ForYear_comicIssues exampleEnv rks [sagaIssue] (Parsed (Some 2023))
      = [rankSaga]"
    by (simp add: rks_def rk ck iy ir ty getEq_def strictEq_def)
  from ty years h2 ry em et ec ei show ?thesis
    unfolding awd_def tvs_def rks_def by (intro conjI)
qed


section \<open>Properties of the client cache\<close>

text \<open>
  Claim C6. When every entry stored under a key is expired at the time of \<open>get\<close> (its
  age has reached the 24 hours; timestamps are \<open>Date.now()\<close> readings and so not 0,
  which the durable tier would take for a missing timestamp), \<open>get\<close> returns a miss and
  the entry is gone from each tier that held it: the key is deleted from the memory map
  and from the durable store. The other keys are untouched.
\<close>

theorem C6_expired_entry_is_a_miss:
  assumes "\<forall>en. memoryCache c key = Some en
              \<longrightarrow> CACHE_EXPIRATION_MS \<le> nowMem - ce_timestamp en"
    and "\<forall>db en. store c = Some db \<longrightarrow> db key = Some en
              \<longrightarrow> CACHE_EXPIRATION_MS \<le> nowDb - ce_timestamp en \<and> ce_timestamp en \<noteq> 0"
  shows "fst (get nowMem nowDb key c) = None
     \<and> memoryCache (snd (get nowMem nowDb key c)) = (memoryCache c)(key := None)
     \<and> store (snd (get nowMem nowDb key c)) = map_option (\<lambda>db. db(key := None)) (store c)"
proof -
  have s: "fst (getFromStore nowDb key c') = None
     \<and> memoryCache (snd (getFromStore nowDb key c')) = memoryCache c'
     \<and> store (snd (getFromStore nowDb key c')) = map_option (\<lambda>db. db(key := None)) (store c')"
    if "store c' = store c" for c' :: "'a DataCache"
  proof (cases "store c")
    case None
    with that show ?thesis by (simp add: getFromStore_def)
  next
    case (Some db)
    show ?thesis
    proof (cases "db key")
      case None
      then have "db(key := None) = db" by auto
      with None Some that show ?thesis by (simp add: getFromStore_def)
    next
      case (Some en)
      with assms(2) \<open>store c = Some db\<close>
      have "CACHE_EXPIRATION_MS \<le> nowDb - ce_timestamp en" "ce_timestamp en \<noteq> 0" by auto
      with Some \<open>store c = Some db\<close> that show ?thesis
        by (simp add: getFromStore_def Let_def)
    qed
  qed
  show ?thesis
  proof (cases "memoryCache c key")
    case None
    then have "(memoryCache c)(key := None) = memoryCache c" by auto
    with None s[of c] show ?thesis by (simp add: get_def)
  next
    case (Some cached)
    with assms(1) have "\<not> nowMem - ce_timestamp cached < CACHE_EXPIRATION_MS" by auto
    with Some s[of "c\<lparr> memoryCache := (memoryCache c)(key := None) \<rparr>"] show ?thesis
      by (simp add: get_def)
  qed
qed

theorem C6_expired_entry_is_a_miss_witness:
  "memoryCache (set_cache 1000 ''movies-prod'' (7::nat) emptyCache) ''movies-prod''
     = Some \<lparr> ce_value = 7, ce_timestamp = 1000 \<rparr>
   \<and> fst (get 86401000 86401001 ''movies-prod'' (set_cache 1000 ''movies-prod'' (7::nat) emptyCache))
     = None
   \<and> memoryCache (snd (get 86401000 86401001 ''movies-prod''
        (set_cache 1000 ''movies-prod'' (7::nat) emptyCache))) ''movies-prod'' = None
   \<and> store (snd (get 86401000 86401001 ''movies-prod''
        (set_cache 1000 ''movies-prod'' (7::nat) emptyCache))) = Some Map.empty"
proof -
  define c where "c = set_cache 1000 ''movies-prod'' (7::nat) emptyCache"
  have m: "memoryCache c ''movies-prod'' = Some \<lparr> ce_value = 7, ce_timestamp = 1000 \<rparr>"
    and st: "store c = Some [''movies-prod'' \<mapsto> \<lparr> ce_value = 7, ce_timestamp = 1000 \<rparr>]"
    by (simp_all add: c_def set_cache_def emptyCache_def)
  have h1: "\<forall>en. memoryCache c ''movies-prod'' = Some en
              \<longrightarrow> CACHE_EXPIRATION_MS \<le> 86401000 - ce_timestamp en"
    by (simp add: m CACHE_EXPIRATION_MS_def)
  have h2: "\<forall>db en. store c = Some db \<longrightarrow> db ''movies-prod'' = Some en
              \<longrightarrow> CACHE_EXPIRATION_MS \<le> 86401001 - ce_timestamp en \<and> ce_timestamp en \<noteq> 0"
    by (auto simp: st CACHE_EXPIRATION_MS_def)
  from C6_expired_entry_is_a_miss[OF h1 h2] m st show ?thesis
    unfolding c_def by simp
qed

text \<open>
  For the record, the one case where an expired memory entry does not end in a miss: the
  durable store holds a fresh record of the key (written by another page of the site).
  The memory entry is dropped, and the store's record is returned and copied to memory.
\<close>

lemma get_expired_memory_fresh_store:
  assumes "memoryCache c key = Some cached"
    and "CACHE_EXPIRATION_MS \<le> nowMem - ce_timestamp cached"
    and "store c = Some db" and "db key = Some result"
    and "ce_timestamp result \<noteq> 0" and "nowDb - ce_timestamp result < CACHE_EXPIRATION_MS"
  shows "get nowMem nowDb key c
     = (Some (ce_value result),
        c\<lparr> memoryCache := (memoryCache c)(key \<mapsto>
             \<lparr> ce_value = ce_value result, ce_timestamp = ce_timestamp result \<rparr>) \<rparr>)"
  using assms by (simp add: get_def getFromStore_def Let_def)

text \<open>\<open>set\<close> followed at once by \<open>get\<close> returns the value.\<close>

lemma get_after_set_cache:
  assumes "nowMem - timestamp < CACHE_EXPIRATION_MS"
  shows "fst (get nowMem nowDb key (set_cache timestamp key v c)) = Some v"
  using assms by (simp add: get_def set_cache_def)


section \<open>Properties of the ranking routes\<close>

text \<open>
  The handler alone: a body that is not an array (a missing body included) is answered
  with status 400 and leaves the disk as it was; an array is written to the ranking file
  of the content type and answered \<open>{ success: true, count }\<close> when the write does
  not throw, and answered with status 500, the disk as it was, when it throws.
\<close>

lemma postRankings_handler:
  "((\<forall>xs. reqBody \<noteq> Some (JArr xs))
      \<longrightarrow> status (fst (postRankings d contentType reqBody)) = 400
          \<and> snd (postRankings d contentType reqBody) = d)
   \<and> (reqBody = Some (JArr xs) \<and> writeError d (getRankingsPath contentType) = None
      \<longrightarrow> postRankings d contentType reqBody
            = (\<lparr> status = 200, body = JObj [(''success'', JBool True),
                                             (''count'', JNum (int (length xs)))] \<rparr>,
               d\<lparr> files := (files d)(getRankingsPath contentType \<mapsto> Some (JArr xs)) \<rparr>))
   \<and> (reqBody = Some (JArr xs) \<and> writeError d (getRankingsPath contentType) = Some message
      \<longrightarrow> status (fst (postRankings d contentType reqBody)) = 500
          \<and> snd (postRankings d contentType reqBody) = d)"
proof (intro conjI impI)
  assume a: "\<forall>xs. reqBody \<noteq> Some (JArr xs)"
  show "status (fst (postRankings d contentType reqBody)) = 400"
    using a by (cases reqBody; cases "the reqBody") (auto simp: postRankings_def)
  show "snd (postRankings d contentType reqBody) = d"
    using a by (cases reqBody; cases "the reqBody") (auto simp: postRankings_def)
next
  assume "reqBody = Some (JArr xs) \<and> writeError d (getRankingsPath contentType) = None"
  then show "postRankings d contentType reqBody
            = (\<lparr> status = 200, body = JObj [(''success'', JBool True),
                                             (''count'', JNum (int (length xs)))] \<rparr>,
               d\<lparr> files := (files d)(getRankingsPath contentType \<mapsto> Some (JArr xs)) \<rparr>)"
    by (simp add: postRankings_def writeFileSync_def)
next
  assume a: "reqBody = Some (JArr xs) \<and> writeError d (getRankingsPath contentType) = Some message"
  then show "status (fst (postRankings d contentType reqBody)) = 500"
    by (simp add: postRankings_def writeFileSync_def)
  from a show "snd (postRankings d contentType reqBody) = d"
    by (simp add: postRankings_def writeFileSync_def)
qed

text \<open>
  Claim C7 fails as stated: not every request reaches the handler. An array of more than
  100 kB of JSON text is refused by the parser with status 413 and nothing is written,
  and an object of that size gets 413 as well, not 400. And an array that reaches the
  handler is answered 500, the file as it was, when the write throws.
\<close>

theorem C7_oversized_body_counterexample:
  "status (fst (postRoute exampleDisk ''movies'' (JsonText 200000 (Some (JArr [JNum 1, JNum 2])))))
     = 413
   \<and> snd (postRoute exampleDisk ''movies'' (JsonText 200000 (Some (JArr [JNum 1, JNum 2]))))
     = exampleDisk
   \<and> status (fst (postRoute exampleDisk ''movies'' (JsonText 200000 (Some (JObj [])))))
     = 413
   \<and> status (fst (postRoute readOnlyDisk ''movies'' (JsonText 6 (Some (JArr [JNum 1, JNum 2])))))
     = 500
   \<and> snd (postRoute readOnlyDisk ''movies'' (JsonText 6 (Some (JArr [JNum 1, JNum 2]))))
     = readOnlyDisk"
  by (simp add: postRoute_def expressJson_def jsonLimit_def postRankings_def writeFileSync_def
      getRankingsPath_def rankingsDir_def readOnlyDisk_def Let_def)

text \<open>
  Claim C7, amended. Of the requests within the parser's limit of 100 kB: one whose body
  is not an array (no JSON at all, an empty body, text that does not parse, a value that
  is not an array) is answered with status 400 and leaves the disk as it was; one whose
  body is an array is written to the ranking file and answered \<open>{ success: true,
  count }\<close> with the length of the array, when the write does not throw. A request
  over the limit is answered 413 and a write that throws 500, the disk as it was in
  both cases.
\<close>

theorem C7_post_route:
  "(p = NotJson \<or> (\<exists>len parsed. p = JsonText len parsed \<and> len \<le> jsonLimit
                        \<and> (len = 0 \<or> (\<forall>xs. parsed \<noteq> Some (JArr xs))))
      \<longrightarrow> status (fst (postRoute d contentType p)) = 400
          \<and> snd (postRoute d contentType p) = d)
   \<and> (p = JsonText len (Some (JArr xs)) \<and> 0 < len \<and> len \<le> jsonLimit
        \<and> writeError d (getRankingsPath contentType) = None
      \<longrightarrow> postRoute d contentType p
            = (\<lparr> status = 200, body = JObj [(''success'', JBool True),
                                             (''count'', JNum (int (length xs)))] \<rparr>,
               d\<lparr> files := (files d)(getRankingsPath contentType \<mapsto> Some (JArr xs)) \<rparr>))
   \<and> (p = JsonText len parsed \<and> jsonLimit < len
      \<longrightarrow> status (fst (postRoute d contentType p)) = 413
          \<and> snd (postRoute d contentType p) = d)
   \<and> (p = JsonText len (Some (JArr xs)) \<and> 0 < len \<and> len \<le> jsonLimit
        \<and> writeError d (getRankingsPath contentType) = Some message
      \<longrightarrow> status (fst (postRoute d contentType p)) = 500
          \<and> snd (postRoute d contentType p) = d)"
proof (intro conjI impI)
  assume a: "p = NotJson \<or> (\<exists>len parsed. p = JsonText len parsed \<and> len \<le> jsonLimit
                        \<and> (len = 0 \<or> (\<forall>xs. parsed \<noteq> Some (JArr xs))))"
  have "status (fst (postRoute d contentType p)) = 400 \<and> snd (postRoute d contentType p) = d"
  proof (cases p)
    case NotJson
    then show ?thesis
      by (simp add: postRoute_def expressJson_def postRankings_def)
  next
    case (JsonText n parsed)
    with a have le: "n \<le> jsonLimit" and na: "n = 0 \<or> (\<forall>xs. parsed \<noteq> Some (JArr xs))"
      by auto
    show ?thesis
    proof (cases "n = 0")
      case True
      with JsonText show ?thesis
        by (simp add: postRoute_def expressJson_def postRankings_def)
    next
      case False
      with na have nx: "\<forall>xs. parsed \<noteq> Some (JArr xs)" by simp
      show ?thesis
      proof (cases parsed)
        case None
        with JsonText le False show ?thesis
          by (simp add: postRoute_def expressJson_def)
      next
        case (Some v)
        with nx have "\<forall>xs. v \<noteq> JArr xs" by simp
        with JsonText le False Some show ?thesis
          by (cases v) (simp_all add: postRoute_def expressJson_def postRankings_def)
      qed
    qed
  qed
  then show "status (fst (postRoute d contentType p)) = 400"
    and "snd (postRoute d contentType p) = d" by simp_all
next
  assume "p = JsonText len (Some (JArr xs)) \<and> 0 < len \<and> len \<le> jsonLimit
        \<and> writeError d (getRankingsPath contentType) = None"
  then show "postRoute d contentType p
            = (\<lparr> status = 200, body = JObj [(''success'', JBool True),
                                             (''count'', JNum (int (length xs)))] \<rparr>,
               d\<lparr> files := (files d)(getRankingsPath contentType \<mapsto> Some (JArr xs)) \<rparr>)"
    by (simp add: postRoute_def expressJson_def postRankings_def writeFileSync_def)
next
  assume a: "p = JsonText len parsed \<and> jsonLimit < len"
  then show "status (fst (postRoute d contentType p)) = 413"
    by (simp add: postRoute_def expressJson_def)
  from a show "snd (postRoute d contentType p) = d"
    by (simp add: postRoute_def expressJson_def)
next
  assume a: "p = JsonText len (Some (JArr xs)) \<and> 0 < len \<and> len \<le> jsonLimit
        \<and> writeError d (getRankingsPath contentType) = Some message"
  then show "status (fst (postRoute d contentType p)) = 500"
    by (simp add: postRoute_def expressJson_def postRankings_def writeFileSync_def)
  from a show "snd (postRoute d contentType p) = d"
    by (simp add: postRoute_def expressJson_def postRankings_def writeFileSync_def)
qed

theorem C7_post_route_witness:
  "status (fst (postRoute exampleDisk ''movies'' (JsonText 14 (Some (JStr ''not an array''))))) = 400
   \<and> snd (postRoute exampleDisk ''movies'' (JsonText 14 (Some (JStr ''not an array''))))
       = exampleDisk
   \<and> fst (postRoute exampleDisk ''movies'' (JsonText 6 (Some (JArr [JNum 1, JNum 2]))))
       = \<lparr> status = 200, body = JObj [(''success'', JBool True), (''count'', JNum 2)] \<rparr>
   \<and> files (snd (postRoute exampleDisk ''movies'' (JsonText 6 (Some (JArr [JNum 1, JNum 2])))))
        ''public/data/movie-rankings.json'' = Some (Some (JArr [JNum 1, JNum 2]))"
proof -
  have p: "getRankingsPath ''movies'' = ''public/data/movie-rankings.json''"
    by (simp add: getRankingsPath_def rankingsDir_def)
  have w: "writeError exampleDisk (getRankingsPath ''movies'') = None"
    by (simp add: exampleDisk_def)
  have n: "JsonText 14 (Some (JStr ''not an array'')) = NotJson
      \<or> (\<exists>len parsed. JsonText 14 (Some (JStr ''not an array'')) = JsonText len parsed
            \<and> len \<le> jsonLimit \<and> (len = 0 \<or> (\<forall>xs. parsed \<noteq> Some (JArr xs))))"
    by (simp add: jsonLimit_def)
  have l: "(0::nat) < 6 \<and> 6 \<le> jsonLimit" by (simp add: jsonLimit_def)
  from C7_post_route[of "JsonText 14 (Some (JStr ''not an array''))" exampleDisk "''movies''"] n
  have a: "status (fst (postRoute exampleDisk ''movies'' (JsonText 14 (Some (JStr ''not an array''))))) = 400"
    "snd (postRoute exampleDisk ''movies'' (JsonText 14 (Some (JStr ''not an array'')))) = exampleDisk"
    by blast+
  from C7_post_route[of "JsonText 6 (Some (JArr [JNum 1, JNum 2]))" exampleDisk "''movies''" 6
      "[JNum 1, JNum 2]"] w l
  have "postRoute exampleDisk ''movies'' (JsonText 6 (Some (JArr [JNum 1, JNum 2])))
          = (\<lparr> status = 200, body = JObj [(''success'', JBool True), (''count'', JNum 2)] \<rparr>,
             exampleDisk\<lparr> files := (files exampleDisk)(getRankingsPath ''movies''
                \<mapsto> Some (JArr [JNum 1, JNum 2])) \<rparr>)"
    by simp
  with a p show ?thesis by simp
qed

text \<open>
  Claim C9. A content type other than \<open>tv\<close> and \<open>comics\<close>, whatever string it is,
  resolves to the movie ranking file: GET and POST answer and act exactly as for
  \<open>movies\<close>. So reading it returns the movie ranking list, and writing it with an
  array (when the write does not throw) overwrites the movie ranking file.
\<close>

theorem C9_unknown_type_uses_movies_file:
  assumes "contentType \<noteq> ''tv''" and "contentType \<noteq> ''comics''"
  shows "getRankingsPath contentType = rankingsDir @ ''/movie-rankings.json''
     \<and> getRankingsPath contentType = getRankingsPath ''movies''
     \<and> getRankings d contentType = getRankings d ''movies''
     \<and> postRankings d contentType reqBody = postRankings d ''movies'' reqBody
     \<and> (files d (getRankingsPath ''movies'') = Some (Some (JArr xs))
          \<longrightarrow> getRankings d contentType = \<lparr> status = 200, body = JArr xs \<rparr>)
     \<and> (reqBody = Some (JArr ys) \<and> writeError d (getRankingsPath ''movies'') = None
          \<longrightarrow> files (snd (postRankings d contentType reqBody)) (getRankingsPath ''movies'')
                = Some (Some (JArr ys)))"
proof -
  have p: "getRankingsPath contentType = rankingsDir @ ''/movie-rankings.json''"
    using assms by (simp add: getRankingsPath_def)
  have q: "getRankingsPath contentType = getRankingsPath ''movies''"
    using assms by (simp add: getRankingsPath_def)
  have g: "getRankings d contentType = getRankings d ''movies''"
    unfolding getRankings_def q ..
  have po: "postRankings d contentType reqBody = postRankings d ''movies'' reqBody"
    unfolding postRankings_def q ..
  have r: "files d (getRankingsPath ''movies'') = Some (Some (JArr xs))
          \<longrightarrow> getRankings d contentType = \<lparr> status = 200, body = JArr xs \<rparr>"
    unfolding g by (simp add: getRankings_def)
  have w: "reqBody = Some (JArr ys) \<and> writeError d (getRankingsPath ''movies'') = None
          \<longrightarrow> files (snd (postRankings d contentType reqBody)) (getRankingsPath ''movies'')
                = Some (Some (JArr ys))"
    unfolding po by (simp add: postRankings_def writeFileSync_def)
  from p q g po r w show ?thesis by blast
qed

theorem C9_unknown_type_uses_movies_file_witness:
  "getRankingsPath ''books'' = ''public/data/movie-rankings.json''
   \<and> getRankings exampleDisk ''books'' = \<lparr> status = 200, body = JArr [JStr ''old''] \<rparr>
   \<and> files (snd (postRankings exampleDisk ''books'' (Some (JArr [JNum 5]))))
        ''public/data/movie-rankings.json'' = Some (Some (JArr [JNum 5]))"
proof -
  have h1: "''books'' \<noteq> ''tv''" and h2: "''books'' \<noteq> ''comics''" by simp_all
  have p: "getRankingsPath ''movies'' = ''public/data/movie-rankings.json''"
    by (simp add: getRankingsPath_def rankingsDir_def)
  have f: "files exampleDisk (getRankingsPath ''movies'') = Some (Some (JArr [JStr ''old'']))"
    and w: "writeError exampleDisk (getRankingsPath ''movies'') = None"
    by (simp_all add: exampleDisk_def p)
  note c = C9_unknown_type_uses_movies_file[OF h1 h2, of exampleDisk "Some (JArr [JNum 5])"
      "[JStr ''old'']" "[JNum 5]"]
  from c have c1: "getRankingsPath ''books'' = rankingsDir @ ''/movie-rankings.json''" by blast
  from c f have c2: "getRankings exampleDisk ''books'' = \<lparr> status = 200, body = JArr [JStr ''old''] \<rparr>"
    by blast
  from c w have c3: "files (snd (postRankings exampleDisk ''books'' (Some (JArr [JNum 5]))))
        (getRankingsPath ''movies'') = Some (Some (JArr [JNum 5]))"
    by blast
  from c1 c2 c3 show ?thesis
    unfolding p by (simp add: rankingsDir_def)
qed


section \<open>Properties of the ranking editor\<close>

lemma mset_spliceInsert: "mset (spliceInsert xs start item) = add_mset item (mset xs)"
proof -
  have "mset (take i xs) + mset (drop i xs) = mset xs" for i
    by (metis append_take_drop_id mset_append)
  then show ?thesis
    by (simp add: spliceInsert_def Let_def)
qed

lemma mset_spliceRemove1:
  assumes "0 \<le> s" and "s < int (length xs)"
  shows "add_mset (xs ! nat s) (mset (spliceRemove1 xs (Num s))) = mset xs"
proof -
  from assms have i: "spliceStart (Num s) (length xs) = nat s" "nat s < length xs"
    by (auto simp: spliceStart_def)
  have "xs = take (nat s) xs @ xs ! nat s # drop (Suc (nat s)) xs"
    using i(2) by (rule id_take_nth_drop)
  then have "mset xs = add_mset (xs ! nat s)
      (mset (take (nat s) xs @ drop (Suc (nat s)) xs))"
    by (metis mset.simps(2) mset_append union_mset_add_mset_right)
  then show ?thesis
    by (simp add: spliceRemove1_def i(1) Let_def)
qed

text \<open>A drop whose source index is a number permutes the list.\<close>

lemma mset_handleDrop_number:
  assumes "draggedIndex \<noteq> None \<or> transferIndex \<noteq> NaN"
  shows "mset (handleDrop draggedIndex transferIndex dropIndex rs) = mset rs"
proof -
  from assms obtain s where
    s: "(case draggedIndex of None \<Rightarrow> transferIndex | Some i \<Rightarrow> Num i) = Num s"
    by (cases draggedIndex; cases transferIndex) auto
  show ?thesis
  proof (cases "s = -1 \<or> s = dropIndex \<or> s < 0 \<or> s \<ge> int (length rs)")
    case True
    then show ?thesis
      unfolding handleDrop_def Let_def s by auto
  next
    case False
    then have r: "0 \<le> s" "s < int (length rs)" by auto
    from False have "handleDrop draggedIndex transferIndex dropIndex rs
        = spliceInsert (spliceRemove1 rs (Num s))
            (Num (if s < dropIndex then dropIndex - 1 else dropIndex)) (rs ! nat s)"
      unfolding handleDrop_def Let_def s by auto
    then show ?thesis
      by (simp only: mset_spliceInsert mset_spliceRemove1[OF r])
  qed
qed

lemma someSameKey_defined:
  "None \<notin> set rs \<Longrightarrow> someSameKey k rs = Inr (Some k \<in> set (identities rs))"
  by (induction k rs rule: someSameKey.induct) (auto simp: identities_def)

text \<open>
  On a list without \<open>undefined\<close> entries the three operations do what Claim C8 says,
  as long as the source index of a drop is a number: adding an identity that is present
  changes nothing, and add, remove and drop keep the identities pairwise different and
  every entry defined; a drop permutes the list.
\<close>

lemma editor_keeps_identities_distinct:
  assumes "None \<notin> set rs" and "distinct (identities rs)"
  shows "Some (r_rating_key movie) \<in> set (identities rs) \<Longrightarrow> addToRankings movie rs = Inr rs"
    and "\<exists>rs'. addToRankings movie rs = Inr rs' \<and> None \<notin> set rs' \<and> distinct (identities rs')"
    and "\<exists>rs'. removeFromRankings ratingKey rs = Inr rs' \<and> None \<notin> set rs'
           \<and> distinct (identities rs')"
    and "draggedIndex \<noteq> None \<or> transferIndex \<noteq> NaN \<Longrightarrow>
           None \<notin> set (handleDrop draggedIndex transferIndex dropIndex rs)
           \<and> distinct (identities (handleDrop draggedIndex transferIndex dropIndex rs))"
proof -
  show "Some (r_rating_key movie) \<in> set (identities rs) \<Longrightarrow> addToRankings movie rs = Inr rs"
    using assms(1) by (simp add: addToRankings_def someSameKey_defined)
  show "\<exists>rs'. addToRankings movie rs = Inr rs' \<and> None \<notin> set rs' \<and> distinct (identities rs')"
    using assms by (auto simp: addToRankings_def someSameKey_defined identities_def)
  have "\<not> list_ex (\<lambda>r. r = None) rs"
    using assms(1) by (auto simp: list_ex_iff)
  then show "\<exists>rs'. removeFromRankings ratingKey rs = Inr rs' \<and> None \<notin> set rs'
           \<and> distinct (identities rs')"
    using assms by (simp add: removeFromRankings_def identities_def distinct_map_filter)
  assume "draggedIndex \<noteq> None \<or> transferIndex \<noteq> NaN"
  then have m: "mset (handleDrop draggedIndex transferIndex dropIndex rs) = mset rs"
    by (rule mset_handleDrop_number)
  then have "set (handleDrop draggedIndex transferIndex dropIndex rs) = set rs"
    by (rule mset_eq_setD)
  moreover have "distinct (identities (handleDrop draggedIndex transferIndex dropIndex rs))
      = distinct (identities rs)"
    unfolding identities_def using m by (metis mset_eq_imp_distinct_iff mset_map)
  ultimately show "None \<notin> set (handleDrop draggedIndex transferIndex dropIndex rs)
           \<and> distinct (identities (handleDrop draggedIndex transferIndex dropIndex rs))"
    using assms by simp
qed



end
